theory Spec2Isabelle
  imports Complex_Main
begin

chapter \<open>The view script of the Advanced Accordion block\<close>

text \<open>
  A model of \<open>src/view.js\<close>: the attribute readers, the settings of an item, and the
  class \<open>AdvancedAccordion\<close> with its open and close animations, linked groups,
  auto-close and resize handling. The document and the callbacks the script leaves
  with the host (animation frames, \<open>transitionend\<close> listeners, timers) are one state,
  passed through every function. Keyboard navigation, \<open>destroy\<close> and the mutation
  observer are left out. The repository holds an earlier variant of the script as well;
  the model follows \<open>src/view.js\<close>, the entry the build names.
\<close>

section \<open>JavaScript values used by the view script\<close>

text \<open>
  A JavaScript number is either NaN, one of the two infinities, or a finite value.
  Finite values are kept exact (a real number): the range and the rounding of binary64
  and the sign of zero are not represented. The script compares parsed durations with
  \<open>0\<close>, multiplies and adds; where the host rounds a literal to \<open>0\<close> or to an infinity
  (\<open>1e-400\<close>, \<open>1e400\<close>), or a product or a sum to the nearest binary64 number, the
  value here is the exact one.
\<close>

datatype jsnum = NaN | PosInf | NegInf | Num real

text \<open>\<open>x > 0\<close> of JavaScript: every comparison with NaN is false.\<close>

fun js_gt0 :: "jsnum \<Rightarrow> bool" where
  "js_gt0 NaN = False"
| "js_gt0 PosInf = True"
| "js_gt0 NegInf = False"
| "js_gt0 (Num r) = (0 < r)"

text \<open>\<open>x * 1000 + 100\<close> of JavaScript, the delay of the fallback timer of a close.\<close>

fun js_fallback_delay :: "jsnum \<Rightarrow> jsnum" where
  "js_fallback_delay NaN = NaN"
| "js_fallback_delay PosInf = PosInf"
| "js_fallback_delay NegInf = NegInf"
| "js_fallback_delay (Num r) = Num (r * 1000 + 100)"

text \<open>\<open>s.stagger * i\<close> for an array index \<open>i\<close> (\<open>Infinity * 0\<close> is NaN).\<close>

fun js_times_index :: "jsnum \<Rightarrow> nat \<Rightarrow> jsnum" where
  "js_times_index NaN i = NaN"
| "js_times_index PosInf i = (if i = 0 then NaN else PosInf)"
| "js_times_index NegInf i = (if i = 0 then NaN else NegInf)"
| "js_times_index (Num r) i = Num (r * real i)"

subsection \<open>The builtin \<open>parseFloat\<close>\<close>

text \<open>
  \<open>parseFloat\<close> is a builtin of the host, not code of the repository; it is modelled
  after ECMA-262: leading white space is skipped, then the longest prefix that is a
  \<open>StrDecimalLiteral\<close> is read, and the result is NaN when there is no such prefix.
  Characters are the 8-bit characters of HOL strings, read as code points below 256.
\<close>

definition is_js_space :: "char \<Rightarrow> bool" where
  "is_js_space c \<longleftrightarrow> of_char c \<in> {9, 10, 11, 12, 13, 32, 160 :: nat}"

definition is_digit :: "char \<Rightarrow> bool" where
  "is_digit c \<longleftrightarrow> (48::nat) \<le> of_char c \<and> of_char c \<le> (57::nat)"

definition digit_val :: "char \<Rightarrow> nat" where
  "digit_val c = of_char c - 48"

definition digits_val :: "string \<Rightarrow> nat" where
  "digits_val ds = foldl (\<lambda>acc c. 10 * acc + digit_val c) 0 ds"

text \<open>The exponent part \<open>e\<close>/\<open>E\<close>, an optional sign and at least one digit; 0 when absent.\<close>

fun exponent_part :: "string \<Rightarrow> int" where
  "exponent_part (e # rest) =
     (if e = CHR ''e'' \<or> e = CHR ''E'' then
        (case rest of
           [] \<Rightarrow> 0
         | c # cs \<Rightarrow>
             if c = CHR ''-'' then
               (if takeWhile is_digit cs = [] then 0
                else - int (digits_val (takeWhile is_digit cs)))
             else if c = CHR ''+'' then int (digits_val (takeWhile is_digit cs))
             else int (digits_val (takeWhile is_digit rest)))
      else 0)"
| "exponent_part [] = 0"

definition scale10 :: "real \<Rightarrow> int \<Rightarrow> real" where
  "scale10 m e = (if 0 \<le> e then m * 10 ^ nat e else m / 10 ^ nat (- e))"

text \<open>An unsigned literal: \<open>Infinity\<close>, or digits with an optional fraction and exponent.\<close>

definition unsigned_literal :: "string \<Rightarrow> jsnum" where
  "unsigned_literal s =
     (if take 8 s = ''Infinity'' then PosInf
      else
        let ip = takeWhile is_digit s;
            r1 = dropWhile is_digit s;
            has_dot = (r1 \<noteq> [] \<and> hd r1 = CHR ''.'');
            fp = (if has_dot then takeWhile is_digit (tl r1) else []);
            r2 = (if has_dot then dropWhile is_digit (tl r1) else r1)
        in if ip = [] \<and> fp = [] then NaN
           else Num (scale10 (real (digits_val (ip @ fp)))
                             (exponent_part r2 - int (length fp))))"

fun js_negate :: "jsnum \<Rightarrow> jsnum" where
  "js_negate NaN = NaN"
| "js_negate PosInf = NegInf"
| "js_negate NegInf = PosInf"
| "js_negate (Num r) = Num (- r)"

definition parseFloat :: "string \<Rightarrow> jsnum" where
  "parseFloat raw =
     (case dropWhile is_js_space raw of
        [] \<Rightarrow> NaN
      | c # cs \<Rightarrow>
          if c = CHR ''-'' then js_negate (unsigned_literal cs)
          else if c = CHR ''+'' then unsigned_literal cs
          else unsigned_literal (c # cs))"

text \<open>
  A string with no numeric prefix: after the white space and an optional sign there is
  neither \<open>Infinity\<close>, nor a digit, nor a dot followed by a digit.
\<close>

definition numeric_start :: "string \<Rightarrow> bool" where
  "numeric_start u \<longleftrightarrow>
     take 8 u = ''Infinity'' \<or>
     (case u of
        [] \<Rightarrow> False
      | c # cs \<Rightarrow> is_digit c \<or>
                 (c = CHR ''.'' \<and> (case cs of [] \<Rightarrow> False | d # ds \<Rightarrow> is_digit d)))"

definition no_numeric_prefix :: "string \<Rightarrow> bool" where
  "no_numeric_prefix raw =
     (case dropWhile is_js_space raw of
        [] \<Rightarrow> True
      | c # cs \<Rightarrow> \<not> numeric_start (if c = CHR ''-'' \<or> c = CHR ''+'' then cs else c # cs))"

section \<open>Attribute readers\<close>

text \<open>
  An element is seen through its attributes: \<open>getAttribute\<close> gives \<open>null\<close> (\<open>None\<close>) for
  an absent attribute. The readers take the element as an option, for \<open>el?.\<close>.
\<close>

type_synonym attributes = "string \<Rightarrow> string option"

definition getAttribute :: "attributes option \<Rightarrow> string \<Rightarrow> string option" where
  "getAttribute el name = (case el of None \<Rightarrow> None | Some a \<Rightarrow> a name)"

definition dataNum :: "attributes option \<Rightarrow> string \<Rightarrow> jsnum \<Rightarrow> jsnum" where
  "dataNum el attr fallback =
     (case getAttribute el (''data-'' @ attr) of
        None \<Rightarrow> fallback
      | Some raw \<Rightarrow> parseFloat raw)"

definition dataStr :: "attributes option \<Rightarrow> string \<Rightarrow> string \<Rightarrow> string" where
  "dataStr el attr fallback =
     (case getAttribute el (''data-'' @ attr) of
        None \<Rightarrow> fallback
      | Some raw \<Rightarrow> raw)"

definition dataBool :: "attributes option \<Rightarrow> string \<Rightarrow> bool \<Rightarrow> bool" where
  "dataBool el attr fallback =
     (case getAttribute el (''data-'' @ attr) of
        None \<Rightarrow> fallback
      | Some raw \<Rightarrow> raw = ''true'')"

section \<open>Animation settings\<close>

record settings =
  duration :: jsnum
  easing :: string
  contentFade :: bool
  fadeDuration :: jsnum
  slideDistance :: jsnum
  stagger :: jsnum

text \<open>The defaults the constructor reads off the container element.\<close>

definition container_defaults :: "attributes \<Rightarrow> settings" where
  "container_defaults container =
     \<lparr> duration = dataNum (Some container) ''duration'' (Num (4 / 10)),
       easing = dataStr (Some container) ''easing'' ''ease'',
       contentFade = dataBool (Some container) ''content-fade'' True,
       fadeDuration = dataNum (Some container) ''fade-duration'' (Num (3 / 10)),
       slideDistance = dataNum (Some container) ''slide-distance'' (Num 10),
       stagger = dataNum (Some container) ''stagger'' (Num 0) \<rparr>"

definition hasAttribute :: "attributes \<Rightarrow> string \<Rightarrow> bool" where
  "hasAttribute el name \<longleftrightarrow> el name \<noteq> None"

text \<open>
  \<open>_getSettings\<close>: the container defaults, each field overwritten when the item carries
  the attribute, then the reduced-motion override. \<open>reduced\<close> is
  \<open>prefersReducedMotion.matches\<close> at the time of the call.
\<close>

definition getSettings :: "settings \<Rightarrow> bool \<Rightarrow> attributes \<Rightarrow> settings" where
  "getSettings defaults reduced item =
     (let s0 = defaults;
          s1 = (if hasAttribute item ''data-duration''
                then s0\<lparr>duration := dataNum (Some item) ''duration'' (duration s0)\<rparr> else s0);
          s2 = (if hasAttribute item ''data-easing''
                then s1\<lparr>easing := dataStr (Some item) ''easing'' (easing s1)\<rparr> else s1);
          s3 = (if hasAttribute item ''data-content-fade''
                then s2\<lparr>contentFade := dataBool (Some item) ''content-fade'' (contentFade s2)\<rparr>
                else s2);
          s4 = (if hasAttribute item ''data-fade-duration''
                then s3\<lparr>fadeDuration := dataNum (Some item) ''fade-duration'' (fadeDuration s3)\<rparr>
                else s3);
          s5 = (if hasAttribute item ''data-slide-distance''
                then s4\<lparr>slideDistance := dataNum (Some item) ''slide-distance'' (slideDistance s4)\<rparr>
                else s4);
          s6 = (if hasAttribute item ''data-stagger''
                then s5\<lparr>stagger := dataNum (Some item) ''stagger'' (stagger s5)\<rparr> else s5)
      in if reduced then s6\<lparr>duration := Num 0, fadeDuration := Num 0, stagger := Num 0\<rparr>
         else s6)"

section \<open>The document\<close>

text \<open>
  Inline style values are kept structured instead of as CSS text: \<open>'none'\<close>, \<open>''\<close> and
  \<open>`${h}px`\<close> are the constructors of a datatype, with the interpolated number as an
  argument. \<open>'0'\<close> and \<open>'0px'\<close> are the same length. The model records the value
  the script assigns; it does not decide whether the browser accepts it as valid CSS.
\<close>

datatype max_height = MH_unset | MH_none | MH_px nat

datatype transition =
    TR_unset
  | TR_none
  | TR_max_height jsnum string
  | TR_fade jsnum string "jsnum option"

datatype transform =
    TF_unset
  | TF_translateY jsnum
  | TF_translateY_minus jsnum
  | TF_translateY_zero

record child_style =
  c_transition :: transition
  c_opacity :: string
  c_transform :: transform

text \<open>The element tree below a content panel: an identity, a tag name, the children.\<close>

datatype elem = Elem (eid: nat) (tagName: string) (children: "elem list")

fun descendants :: "elem \<Rightarrow> elem list" where
  "descendants (Elem i t ks) = concat (map (\<lambda>k. k # descendants k) ks)"

definition is_list_elem :: "elem \<Rightarrow> bool" where
  "is_list_elem e \<longleftrightarrow> tagName e = ''UL'' \<or> tagName e = ''OL''"

text \<open>
  \<open>_getAnimatableElements\<close>: for each direct child, the \<open>LI\<close> children of every list
  below it when there is one, the child itself otherwise.
\<close>

definition getAnimatableElements :: "elem list \<Rightarrow> nat list" where
  "getAnimatableElements cs =
     concat (map (\<lambda>child.
        let lists = filter is_list_elem (descendants child)
        in if lists \<noteq> []
           then concat (map (\<lambda>l. map eid (filter (\<lambda>k. tagName k = ''LI'') (children l))) lists)
           else [eid child]) cs)"

text \<open>
  The content panel. \<open>naturalHeight\<close> is what layout gives for \<open>offsetHeight\<close> once
  \<open>max-height\<close> is \<open>none\<close>, and \<open>scrollHeight\<close> what it gives for \<open>scrollHeight\<close>;
  both belong to the environment. The inline styles of the elements below the panel
  are a store indexed by element.
\<close>

record panel =
  elemId :: string
  ariaLabelledby :: "string option"
  hidden :: bool
  noFadeClass :: bool
  isClosing :: "string option"
  maxHeight :: max_height
  maxHeightImportant :: bool
  transition :: transition
  overflow :: string
  opacity :: string
  naturalHeight :: nat
  scrollHeight :: nat
  kids :: "elem list"
  kidStyle :: "nat \<Rightarrow> child_style"

record toggle_button =
  buttonId :: string
  ariaControls :: "string option"
  ariaExpanded :: "string option"

text \<open>
  An accordion item: its attributes, the \<open>is-open\<close> class, the two custom properties
  of its inline style, the first \<open>.aa-toggle-button\<close> and the first
  \<open>.wp-block-accordion-content\<close> below it (\<open>querySelector\<close>), and the closest
  \<open>.wp-block-advanced-accordion\<close> ancestor.
\<close>

record item =
  attrs :: attributes
  isOpen :: bool
  aaDuration :: "jsnum option"
  aaEasing :: "string option"
  toggleButton :: "toggle_button option"
  content :: "panel option"
  closest :: "nat option"

text \<open>An instance of the class \<open>AdvancedAccordion\<close>.\<close>

record accordion =
  autoClose :: bool
  allowMultiple :: bool
  defaults :: settings
  items :: "nat list"

text \<open>
  The callbacks the script hands to the host. Each closure carries what it captured.
  A listener is a \<open>transitionend\<close> listener on the content panel of the item it is
  stored with; the number identifies the call of \<open>_openItem\<close> or \<open>_closeItem\<close> that
  created it.
\<close>

datatype frame_callback =
    Open_frame nat jsnum settings nat bool
  | Close_frame nat settings

datatype listener =
    Open_onEnd nat
  | Close_debugHandler nat
  | Close_transitionEndHandler nat settings

datatype timer =
    Fallback nat nat settings jsnum
  | Log_timer nat

datatype event_target = Target_content | Target_descendant nat

record state =
  doc :: "nat list"
  item_of :: "nat \<Rightarrow> item"
  instances :: "nat \<Rightarrow> accordion option"
  reduced :: bool
  frames :: "frame_callback list"
  listeners :: "(nat \<times> listener) list"
  timers :: "timer list"
  hasCompleted :: "nat \<Rightarrow> bool"
  next_closure :: nat

definition upd_item :: "nat \<Rightarrow> (item \<Rightarrow> item) \<Rightarrow> state \<Rightarrow> state" where
  "upd_item i f st = st\<lparr>item_of := (item_of st)(i := f (item_of st i))\<rparr>"

definition upd_content :: "nat \<Rightarrow> (panel \<Rightarrow> panel) \<Rightarrow> state \<Rightarrow> state" where
  "upd_content i f st = upd_item i (\<lambda>it. it\<lparr>content := map_option f (content it)\<rparr>) st"

text \<open>
  \<open>content.style.maxHeight = v\<close> replaces the declaration and drops its priority;
  \<open>setProperty('max-height', v, 'important')\<close> sets the priority.
\<close>

definition set_maxHeight :: "max_height \<Rightarrow> panel \<Rightarrow> panel" where
  "set_maxHeight v p = p\<lparr>maxHeight := v, maxHeightImportant := False\<rparr>"

definition set_maxHeight_important :: "max_height \<Rightarrow> panel \<Rightarrow> panel" where
  "set_maxHeight_important v p = p\<lparr>maxHeight := v, maxHeightImportant := True\<rparr>"

text \<open>\<open>style.setProperty(name, v)\<close> with the empty string removes the property.\<close>

definition custom_property :: "string \<Rightarrow> string option" where
  "custom_property v = (if v = [] then None else Some v)"

definition forEach_style ::
  "nat list \<Rightarrow> (child_style \<Rightarrow> child_style) \<Rightarrow> (nat \<Rightarrow> child_style) \<Rightarrow> (nat \<Rightarrow> child_style)" where
  "forEach_style els f m = fold (\<lambda>e m'. m'(e := f (m' e))) els m"

definition forEach_style_indexed ::
  "nat list \<Rightarrow> (nat \<Rightarrow> child_style \<Rightarrow> child_style) \<Rightarrow> (nat \<Rightarrow> child_style) \<Rightarrow> (nat \<Rightarrow> child_style)" where
  "forEach_style_indexed els f m = fold (\<lambda>(i, e) m'. m'(e := f i (m' e))) (enumerate 0 els) m"

section \<open>Opening and closing an item\<close>

definition fadeInChildren :: "settings \<Rightarrow> panel \<Rightarrow> panel" where
  "fadeInChildren s ct =
     ct\<lparr>kidStyle := forEach_style_indexed (getAnimatableElements (kids ct))
          (\<lambda>i c. c\<lparr>c_transition := TR_fade (fadeDuration s) (easing s) (Some (js_times_index (stagger s) i)),
                    c_opacity := ''1'',
                    c_transform := TF_translateY_zero\<rparr>)
          (kidStyle ct)\<rparr>"

definition fadeOutChildren :: "settings \<Rightarrow> panel \<Rightarrow> panel" where
  "fadeOutChildren s ct =
     ct\<lparr>kidStyle := forEach_style (getAnimatableElements (kids ct))
          (\<lambda>c. c\<lparr>c_transition := TR_fade (fadeDuration s) (easing s) None,
                  c_opacity := ''0'',
                  c_transform := TF_translateY_minus (slideDistance s)\<rparr>)
          (kidStyle ct)\<rparr>"

text \<open>
  \<open>_openItem\<close> of the instance whose defaults are \<open>dflt\<close>. The synchronous part ends
  with a frame callback registered in every case, and with the \<open>transitionend\<close>
  listener \<open>onEnd\<close> registered when the duration is positive.
\<close>

definition openItem :: "settings \<Rightarrow> nat \<Rightarrow> bool \<Rightarrow> state \<Rightarrow> state" where
  "openItem dflt i instant st =
     (let it = item_of st i in
      case toggleButton it of None \<Rightarrow> st | Some tg \<Rightarrow>
      case content it of None \<Rightarrow> st | Some ct \<Rightarrow>
        let s = getSettings dflt (reduced st) (attrs it);
            dur = (if instant then Num 0 else duration s);
            c1 = ct\<lparr>hidden := False, noFadeClass := \<not> contentFade s\<rparr>;
            c2 = (if contentFade s \<and> \<not> instant
                  then c1\<lparr>kidStyle := forEach_style (getAnimatableElements (kids c1))
                              (\<lambda>c. c\<lparr>c_opacity := ''0'',
                                      c_transform := TF_translateY (slideDistance s)\<rparr>)
                              (kidStyle c1)\<rparr>
                  else c1);
            c3 = (set_maxHeight MH_none (c2\<lparr>transition := TR_none\<rparr>))\<lparr>overflow := ''hidden''\<rparr>;
            targetHeight = naturalHeight c3;
            c4 = set_maxHeight (MH_px 0) c3;
            cid = next_closure st;
            c5 = (if js_gt0 dur then c4 else set_maxHeight MH_none c4);
            it' = it\<lparr>isOpen := True,
                     toggleButton := Some (tg\<lparr>ariaExpanded := Some ''true''\<rparr>),
                     aaDuration := Some dur,
                     aaEasing := custom_property (easing s),
                     content := Some c5\<rparr>
        in st\<lparr>item_of := (item_of st)(i := it'),
              frames := frames st @ [Open_frame i dur s targetHeight instant],
              listeners := (if js_gt0 dur then listeners st @ [(i, Open_onEnd cid)]
                            else listeners st),
              next_closure := Suc cid\<rparr>)"

text \<open>The local function \<open>cleanup\<close> of \<open>_closeItem\<close>, for the closure \<open>cid\<close>.\<close>

definition cleanup :: "nat \<Rightarrow> nat \<Rightarrow> settings \<Rightarrow> state \<Rightarrow> state" where
  "cleanup i cid s st =
     (if hasCompleted st cid then st
      else
        let st1 = st\<lparr>hasCompleted := (hasCompleted st)(cid := True)\<rparr>;
            st2 = upd_item i (\<lambda>it. it\<lparr>isOpen := False,
                     toggleButton := map_option (\<lambda>t. t\<lparr>ariaExpanded := Some ''false''\<rparr>)
                                                (toggleButton it)\<rparr>) st1;
            st3 = upd_content i (\<lambda>ct. (set_maxHeight MH_unset (ct\<lparr>hidden := True\<rparr>))
                     \<lparr>transition := TR_unset, overflow := [], opacity := []\<rparr>) st2;
            st4 = (if contentFade s
                   then upd_content i (\<lambda>ct. ct\<lparr>kidStyle :=
                          forEach_style (getAnimatableElements (kids ct))
                            (\<lambda>c. c\<lparr>c_transition := TR_unset, c_opacity := [],
                                    c_transform := TF_unset\<rparr>)
                            (kidStyle ct)\<rparr>) st3
                   else st3)
        in upd_content i (\<lambda>ct. ct\<lparr>isClosing := Some ''false''\<rparr>) st4)"

text \<open>
  \<open>_closeItem\<close>. With a positive duration it registers the two listeners, the fallback
  timer and a frame callback; otherwise it runs \<open>cleanup\<close> at once.
\<close>

definition closeItem :: "settings \<Rightarrow> nat \<Rightarrow> state \<Rightarrow> state" where
  "closeItem dflt i st =
     (let it = item_of st i in
      case toggleButton it of None \<Rightarrow> st | Some tg \<Rightarrow>
      case content it of None \<Rightarrow> st | Some ct \<Rightarrow>
        if isClosing ct = Some ''true'' then st
        else
          let c1 = ct\<lparr>isClosing := Some ''true''\<rparr>;
              s = getSettings dflt (reduced st) (attrs it);
              c2 = c1\<lparr>noFadeClass := \<not> contentFade s\<rparr>;
              currentHeight = scrollHeight c2;
              c3 = set_maxHeight_important (MH_px currentHeight)
                     (c2\<lparr>transition := TR_none, overflow := ''hidden''\<rparr>);
              cid = next_closure st;
              it' = it\<lparr>aaDuration := Some (duration s),
                       aaEasing := custom_property (easing s),
                       content := Some c3\<rparr>;
              st1 = st\<lparr>item_of := (item_of st)(i := it'),
                       hasCompleted := (hasCompleted st)(cid := False),
                       next_closure := Suc cid\<rparr>
          in if js_gt0 (duration s) then
               st1\<lparr>listeners := listeners st1 @
                       [(i, Close_debugHandler cid), (i, Close_transitionEndHandler cid s)],
                    timers := timers st1 @ [Fallback i cid s (js_fallback_delay (duration s))],
                    frames := frames st1 @ [Close_frame i s]\<rparr>
             else cleanup i cid s (upd_content i (set_maxHeight (MH_px 0)) st1))"

section \<open>The callbacks\<close>

fun run_frame :: "frame_callback \<Rightarrow> state \<Rightarrow> state" where
  "run_frame (Open_frame i dur s targetHeight instant) st =
     upd_content i (\<lambda>ct.
        let c1 = set_maxHeight (MH_px targetHeight) (ct\<lparr>transition := TR_max_height dur (easing s)\<rparr>)
        in if contentFade s \<and> \<not> instant then fadeInChildren s c1 else c1) st"
| "run_frame (Close_frame i s) st =
     (let st1 = upd_content i (\<lambda>ct. set_maxHeight_important (MH_px 0)
                   (ct\<lparr>transition := TR_max_height (duration s) (easing s)\<rparr>)) st;
          st2 = st1\<lparr>timers := timers st1 @ [Log_timer 10, Log_timer 100]\<rparr>
      in if contentFade s then upd_content i (fadeOutChildren s) st2 else st2)"

text \<open>One animation frame: the callbacks requested so far run in the order of request.\<close>

definition animation_frame :: "state \<Rightarrow> state" where
  "animation_frame st = fold run_frame (frames st) (st\<lparr>frames := []\<rparr>)"

text \<open>The fallback timer set by the close \<open>cid\<close> of item \<open>i\<close>, for \<open>clearTimeout\<close>.\<close>

definition is_fallback_of :: "nat \<Rightarrow> nat \<Rightarrow> timer \<Rightarrow> bool" where
  "is_fallback_of i cid t =
     (case t of Fallback j c s d \<Rightarrow> j = i \<and> c = cid | Log_timer d \<Rightarrow> False)"

text \<open>
  A \<open>transitionend\<close> listener of the panel of item \<open>i\<close>, for an event with the given
  target and property name.
\<close>

fun run_listener :: "nat \<Rightarrow> event_target \<Rightarrow> string \<Rightarrow> listener \<Rightarrow> state \<Rightarrow> state" where
  "run_listener i tgt prop (Open_onEnd cid) st =
     (if prop \<noteq> ''max-height'' then st
      else (let st1 = upd_content i (set_maxHeight MH_none) st
            in st1\<lparr>listeners := removeAll (i, Open_onEnd cid) (listeners st1)\<rparr>))"
| "run_listener i tgt prop (Close_debugHandler cid) st = st"
| "run_listener i tgt prop (Close_transitionEndHandler cid s) st =
     (if tgt \<noteq> Target_content \<or> prop \<noteq> ''max-height'' then st
      else cleanup i cid s
             (st\<lparr>listeners := removeAll (i, Close_debugHandler cid)
                                (removeAll (i, Close_transitionEndHandler cid s) (listeners st)),
                 timers := filter (\<lambda>t. \<not> is_fallback_of i cid t) (timers st)\<rparr>))"

text \<open>
  A \<open>transitionend\<close> event reaching the panel of item \<open>i\<close>: the listeners registered
  at dispatch run in order, unless removed in between.
\<close>

definition transitionend :: "nat \<Rightarrow> event_target \<Rightarrow> string \<Rightarrow> state \<Rightarrow> state" where
  "transitionend i tgt prop st =
     fold (\<lambda>l st'. if (i, l) \<in> set (listeners st') then run_listener i tgt prop l st' else st')
          (map snd (filter (\<lambda>jl. fst jl = i) (listeners st))) st"

text \<open>
  A timer that fires. The fallback of a close removes the handler of the close; its
  \<open>removeEventListener\<close> for the debug handler names no capture flag and removes nothing.
\<close>

fun run_timer :: "timer \<Rightarrow> state \<Rightarrow> state" where
  "run_timer (Fallback i cid s d) st =
     cleanup i cid s
       (st\<lparr>listeners := removeAll (i, Close_transitionEndHandler cid s) (listeners st)\<rparr>)"
| "run_timer (Log_timer d) st = st"

definition fire_timer :: "timer \<Rightarrow> state \<Rightarrow> state" where
  "fire_timer t st =
     (if t \<in> set (timers st) then run_timer t (st\<lparr>timers := remove1 t (timers st)\<rparr>) else st)"

section \<open>Toggling, linked groups, auto-close\<close>

subsection \<open>The selector of a linked group\<close>

text \<open>
  \<open>_syncLinkedGroup\<close> splices the group id, as it stands, into the selector text
  \<open>.wp-block-accordion-item[data-link-group="..."]\<close> and hands it to
  \<open>document.querySelectorAll\<close>, a builtin of the host. The builtin is modelled after
  the tokenizer of CSS Syntax Level 3 and the attribute selector of Selectors Level 4,
  on code points (natural numbers), as far as the text after the opening quote decides
  the outcome:

  \<^item> the input is preprocessed: CR LF, CR and FF become LF, NUL becomes U+FFFD;
  \<^item> a string token runs to the next quote; a backslash takes the next code point
    literally, or up to six hexadecimal digits and one white space after them as the
    number of a code point, or joins two lines; a line break that is not escaped ends
    the token as a bad string;
  \<^item> when the quote that closes the string is the one the script wrote, the selector
    is the attribute selector for the value of the string;
  \<^item> a bad string makes the text no selector, and so does a second string or a name
    other than \<open>i\<close> and \<open>s\<close> right after the value: \<open>querySelectorAll\<close> throws a
    \<open>SyntaxError\<close>;
  \<^item> every other text goes on after the value (a modifier, the end of the attribute
    selector and further selectors, a comment) or leaves the string open; what it
    selects is not decided here.
\<close>

fun css_input :: "bool \<Rightarrow> nat list \<Rightarrow> nat list" where
  "css_input after_cr [] = []"
| "css_input after_cr (c # cs) =
     (if c = 13 then 10 # css_input True cs
      else if c = 10 then (if after_cr then css_input False cs else 10 # css_input False cs)
      else if c = 12 then 10 # css_input False cs
      else if c = 0 then 65533 # css_input False cs
      else c # css_input False cs)"

definition is_hex_digit :: "nat \<Rightarrow> bool" where
  "is_hex_digit c \<longleftrightarrow>
     (48 \<le> c \<and> c \<le> 57) \<or> (65 \<le> c \<and> c \<le> 70) \<or> (97 \<le> c \<and> c \<le> 102)"

definition hex_digit_val :: "nat \<Rightarrow> nat" where
  "hex_digit_val c = (if c \<le> 57 then c - 48 else if c \<le> 70 then c - 55 else c - 87)"

definition hex_val :: "nat list \<Rightarrow> nat" where
  "hex_val hs = foldl (\<lambda>acc c. 16 * acc + hex_digit_val c) 0 hs"

definition is_css_space :: "nat \<Rightarrow> bool" where
  "is_css_space c \<longleftrightarrow> c = 10 \<or> c = 9 \<or> c = 32"

text \<open>
  The code point an escape stands for and the input after it; \<open>cs\<close> is the input after
  the backslash, not empty and not starting with a line break. Zero, the surrogates
  and numbers above U+10FFFF give U+FFFD.
\<close>

definition escaped_code_point :: "nat list \<Rightarrow> nat \<times> nat list" where
  "escaped_code_point cs =
     (let hs = takeWhile is_hex_digit (take 6 cs) in
      if hs = [] then (hd cs, tl cs)
      else (let n = hex_val hs; rest = drop (length hs) cs
            in (if n = 0 \<or> (55296 \<le> n \<and> n \<le> 57343) \<or> 1114111 < n then 65533 else n,
                case rest of [] \<Rightarrow> [] | w # ws \<Rightarrow> if is_css_space w then ws else rest)))"

text \<open>
  A string token after its opening double quote: closed, with its value and the input
  after the closing quote; open at the end of the input; or a bad string.
\<close>

datatype string_token = String_token "nat list" "nat list" | Open_string "nat list" | Bad_string

function consume_string :: "nat list \<Rightarrow> nat list \<Rightarrow> string_token" where
  "consume_string acc [] = Open_string acc"
| "consume_string acc (c # cs) =
     (if c = 34 then String_token acc cs
      else if c = 10 then Bad_string
      else if c = 92 then
        (case cs of
           [] \<Rightarrow> Open_string acc
         | d # ds \<Rightarrow>
             if d = 10 then consume_string acc ds
             else consume_string (acc @ [fst (escaped_code_point cs)])
                                 (snd (escaped_code_point cs)))
      else consume_string (acc @ [c]) cs)"
  by pat_completeness auto
termination
proof (relation "measure (\<lambda>(acc, cs). length cs)", goal_cases)
  case (3 acc c cs d ds)
  have trim: "length rest \<le> n \<Longrightarrow>
      length (case rest of [] \<Rightarrow> [] | w # ws \<Rightarrow> if is_css_space w then ws else rest) \<le> n"
    for rest :: "nat list" and n
    by (cases rest) auto
  have "length (snd (escaped_code_point cs)) \<le> length cs"
    by (simp add: escaped_code_point_def Let_def trim)
  then show ?case by simp
qed simp_all

text \<open>
  Names are followed only when they start with an ASCII letter or an underscore; a name
  goes on with letters, digits, underscores, hyphens and code points from U+0080.
\<close>

definition is_name_start :: "nat \<Rightarrow> bool" where
  "is_name_start c \<longleftrightarrow> (65 \<le> c \<and> c \<le> 90) \<or> (97 \<le> c \<and> c \<le> 122) \<or> c = 95"

definition is_name_char :: "nat \<Rightarrow> bool" where
  "is_name_char c \<longleftrightarrow> is_name_start c \<or> (48 \<le> c \<and> c \<le> 57) \<or> c = 45 \<or> 128 \<le> c"

datatype linked_selector = Attr_equals "nat list" | Invalid_selector | Outside_model

text \<open>
  The text after a value that a quote of the group id has closed. After optional white
  space, a double quote starts a second string, and a name that begins with a letter
  or an underscore and is not \<open>i\<close>, \<open>I\<close>, \<open>s\<close> or \<open>S\<close> is no modifier (however the name
  goes on): in both cases the text is no selector.
\<close>

definition after_value :: "nat list \<Rightarrow> linked_selector" where
  "after_value rest =
     (case dropWhile is_css_space rest of
        [] \<Rightarrow> Outside_model
      | c # cs \<Rightarrow>
          if c = 34 then Invalid_selector
          else if is_name_start c then
            (if takeWhile is_name_char (c # cs) \<in> {[105], [73], [115], [83]}
             then Outside_model else Invalid_selector)
          else Outside_model)"

text \<open>
  The selector for a group id. The template of the script ends the text with \<open>"]\<close>
  (the code points 34 and 93); the string is closed by that quote exactly when the
  input left after it is \<open>]\<close>.
\<close>

definition linked_selector :: "string \<Rightarrow> linked_selector" where
  "linked_selector groupId =
     (case consume_string [] (css_input False (map of_char groupId @ [34, 93])) of
        String_token v rest \<Rightarrow> if rest = [93] then Attr_equals v else after_value rest
      | Open_string v \<Rightarrow> Outside_model
      | Bad_string \<Rightarrow> Invalid_selector)"

text \<open>An attribute, absent or present, has the value \<open>v\<close>.\<close>

definition has_value :: "nat list \<Rightarrow> string option \<Rightarrow> bool" where
  "has_value v a = (case a of None \<Rightarrow> False | Some s \<Rightarrow> map of_char s = v)"

text \<open>
  What a call of a builtin comes to: a value, an exception, or an outcome this model
  does not decide.
\<close>

datatype error = SyntaxError

datatype 'a completion = Value 'a | Exception error | Undecided

text \<open>
  \<open>document.querySelectorAll\<close> on the selector of a group id: the accordion items of
  the document, in document order, whose \<open>data-link-group\<close> has the value.
\<close>

definition querySelectorAll_linked :: "state \<Rightarrow> string \<Rightarrow> nat list completion" where
  "querySelectorAll_linked st groupId =
     (case linked_selector groupId of
        Attr_equals v \<Rightarrow>
          Value (filter (\<lambda>j. has_value v (attrs (item_of st j) ''data-link-group'')) (doc st))
      | Invalid_selector \<Rightarrow> Exception SyntaxError
      | Outside_model \<Rightarrow> Undecided)"

subsection \<open>The click handler\<close>

text \<open>A JavaScript string or \<open>null\<close> used as a condition.\<close>

definition truthy :: "string option \<Rightarrow> bool" where
  "truthy v = (case v of None \<Rightarrow> False | Some g \<Rightarrow> g \<noteq> [])"

definition instanceForItem :: "state \<Rightarrow> nat \<Rightarrow> accordion option" where
  "instanceForItem st i =
     (case closest (item_of st i) of None \<Rightarrow> None | Some c \<Rightarrow> instances st c)"

definition openItemGlobal :: "accordion \<Rightarrow> nat \<Rightarrow> state \<Rightarrow> state" where
  "openItemGlobal this i st =
     (case instanceForItem st i of
        Some inst \<Rightarrow> openItem (defaults inst) i False st
      | None \<Rightarrow> openItem (defaults this) i False st)"

definition closeItemGlobal :: "accordion \<Rightarrow> nat \<Rightarrow> state \<Rightarrow> state" where
  "closeItemGlobal this i st =
     (case instanceForItem st i of
        Some inst \<Rightarrow> closeItem (defaults inst) i st
      | None \<Rightarrow> closeItem (defaults this) i st)"

definition sync_one :: "accordion \<Rightarrow> nat \<Rightarrow> bool \<Rightarrow> nat \<Rightarrow> state \<Rightarrow> state" where
  "sync_one this triggerItem shouldOpen linkedItem st =
     (if linkedItem = triggerItem then st
      else if shouldOpen \<and> \<not> isOpen (item_of st linkedItem) then openItemGlobal this linkedItem st
      else if \<not> shouldOpen \<and> isOpen (item_of st linkedItem) then closeItemGlobal this linkedItem st
      else st)"

text \<open>
  \<open>_syncLinkedGroup\<close> and \<open>_toggle\<close>, the click handler of the toggle of item \<open>i\<close>, over
  the selector engine \<open>q\<close> they call. An exception leaves the handler with the effects
  so far in place: it comes with the state reached.
\<close>

definition syncLinkedGroup ::
  "(state \<Rightarrow> string \<Rightarrow> nat list completion) \<Rightarrow>
   accordion \<Rightarrow> string \<Rightarrow> nat \<Rightarrow> bool \<Rightarrow> state \<Rightarrow> state completion" where
  "syncLinkedGroup q this groupId triggerItem shouldOpen st =
     (case q st groupId of
        Value allLinked \<Rightarrow> Value (fold (sync_one this triggerItem shouldOpen) allLinked st)
      | Exception e \<Rightarrow> Exception e
      | Undecided \<Rightarrow> Undecided)"

definition autoClose_one :: "accordion \<Rightarrow> nat \<Rightarrow> string option \<Rightarrow> nat \<Rightarrow> state \<Rightarrow> state" where
  "autoClose_one this i groupId sibling st =
     (if sibling \<noteq> i \<and> isOpen (item_of st sibling) then
        (let siblingGroup = attrs (item_of st sibling) ''data-link-group''
         in if truthy siblingGroup \<and> siblingGroup = groupId then st
            else closeItem (defaults this) sibling st)
      else st)"

datatype outcome = Returned state | Threw error state | Not_decided

definition toggle_by ::
  "(state \<Rightarrow> string \<Rightarrow> nat list completion) \<Rightarrow> accordion \<Rightarrow> nat \<Rightarrow> state \<Rightarrow> outcome" where
  "toggle_by q this i st =
     (let wasOpen = isOpen (item_of st i);
          st1 = (if wasOpen then closeItem (defaults this) i st
                 else openItem (defaults this) i False st);
          groupId = attrs (item_of st1 i) ''data-link-group'';
          synced = (case groupId of
                      None \<Rightarrow> Value st1
                    | Some g \<Rightarrow> if g \<noteq> [] then syncLinkedGroup q this g i (\<not> wasOpen) st1
                                else Value st1)
      in case synced of
           Exception e \<Rightarrow> Threw e st1
         | Undecided \<Rightarrow> Not_decided
         | Value st2 \<Rightarrow>
             Returned (if \<not> wasOpen \<and> autoClose this
                       then fold (autoClose_one this i groupId) (items this) st2
                       else st2))"

text \<open>The click handler with the selector engine of the host.\<close>

definition toggle :: "accordion \<Rightarrow> nat \<Rightarrow> state \<Rightarrow> outcome" where
  "toggle = toggle_by querySelectorAll_linked"

section \<open>Resize\<close>

definition recalc_one :: "nat \<Rightarrow> state \<Rightarrow> state" where
  "recalc_one i st =
     (let it = item_of st i in
      if \<not> isOpen it then st
      else case content it of
             None \<Rightarrow> st
           | Some ct \<Rightarrow>
               if isClosing ct = Some ''true'' then st
               else if maxHeight ct \<noteq> MH_none
                    then upd_content i (set_maxHeight (MH_px (scrollHeight ct))) st
                    else st)"

definition recalcOpenHeights :: "accordion \<Rightarrow> state \<Rightarrow> state" where
  "recalcOpenHeights this st = fold recalc_one (items this) st"

section \<open>Hydration\<close>

text \<open>
  \<open>_initItem\<close>; \<open>random\<close> is the text \<open>Math.random().toString(36).slice(2, 10)\<close> would
  give, used when the item has no \<open>data-item-id\<close> or an empty one. The click listener
  it attaches to the toggle is the rule \<open>click\<close> of the reachable states below.
\<close>

definition initItem :: "settings \<Rightarrow> string \<Rightarrow> nat \<Rightarrow> state \<Rightarrow> state" where
  "initItem dflt random i st =
     (let it = item_of st i in
      case toggleButton it of None \<Rightarrow> st | Some tg \<Rightarrow>
      case content it of None \<Rightarrow> st | Some ct \<Rightarrow>
        let id = (case attrs it ''data-item-id'' of
                    None \<Rightarrow> ''aa-'' @ random
                  | Some v \<Rightarrow> if v \<noteq> [] then v else ''aa-'' @ random);
            toggleId = id @ ''-toggle'';
            contentId = id @ ''-content'';
            tg1 = tg\<lparr>buttonId := toggleId, ariaControls := Some contentId\<rparr>;
            ct1 = ct\<lparr>elemId := contentId, ariaLabelledby := Some toggleId\<rparr>;
            st1 = st\<lparr>item_of := (item_of st)
                       (i := it\<lparr>toggleButton := Some tg1, content := Some ct1\<rparr>)\<rparr>;
            openDefault = dataBool (Some (attrs it)) ''open-default'' False
        in if openDefault then openItem dflt i True st1
           else upd_item i (\<lambda>it1. it1\<lparr>
                  toggleButton := Some (tg1\<lparr>ariaExpanded := Some ''false''\<rparr>),
                  content := Some ((set_maxHeight (MH_px 0) (ct1\<lparr>hidden := True\<rparr>))
                                    \<lparr>overflow := ''hidden''\<rparr>)\<rparr>) st1)"

text \<open>
  The constructor, for a container with the given attributes whose direct child items
  are \<open>its\<close>, followed by the registration of the instance under the container \<open>c\<close>.
\<close>

definition new_accordion :: "attributes \<Rightarrow> nat list \<Rightarrow> accordion" where
  "new_accordion container its =
     \<lparr> autoClose = dataBool (Some container) ''auto-close'' False,
       allowMultiple = dataBool (Some container) ''allow-multiple'' True,
       defaults = container_defaults container,
       items = its \<rparr>"

definition hydrate :: "nat \<Rightarrow> attributes \<Rightarrow> nat list \<Rightarrow> (nat \<Rightarrow> string) \<Rightarrow> state \<Rightarrow> state" where
  "hydrate c container its random st =
     (let this = new_accordion container its;
          st1 = fold (\<lambda>i. initItem (defaults this) (random i) i) (items this) st
      in st1\<lparr>instances := (instances st1)(c := Some this)\<rparr>)"

section \<open>The environment\<close>

text \<open>Layout gives the panel of item \<open>i\<close> new measured heights.\<close>

definition set_layout :: "nat \<Rightarrow> nat \<Rightarrow> nat \<Rightarrow> state \<Rightarrow> state" where
  "set_layout i h sh st = upd_content i (\<lambda>ct. ct\<lparr>naturalHeight := h, scrollHeight := sh\<rparr>) st"

text \<open>The item a callback belongs to.\<close>

fun frame_item :: "frame_callback \<Rightarrow> nat" where
  "frame_item (Open_frame i dur s h instant) = i"
| "frame_item (Close_frame i s) = i"

fun timer_item :: "timer \<Rightarrow> nat option" where
  "timer_item (Fallback i cid s d) = Some i"
| "timer_item (Log_timer d) = None"

text \<open>Every pending fallback timer of item \<open>i\<close> fires.\<close>

definition fire_fallbacks :: "nat \<Rightarrow> state \<Rightarrow> state" where
  "fire_fallbacks i st = fold fire_timer (filter (\<lambda>t. timer_item t = Some i) (timers st)) st"

text \<open>The state a click handler leaves, whether it returned or threw.\<close>

definition outcome_state :: "outcome \<Rightarrow> state option" where
  "outcome_state r =
     (case r of Returned st \<Rightarrow> Some st | Threw e st \<Rightarrow> Some st | Not_decided \<Rightarrow> None)"

section \<open>Static markup\<close>

text \<open>
  Static markup as the save components write it: no inline style, \<open>aria-expanded\<close>
  \<open>false\<close> on the toggle button, nothing pending.
\<close>

definition unstyled :: child_style where
  "unstyled = \<lparr>c_transition = TR_unset, c_opacity = [], c_transform = TF_unset\<rparr>"

definition markup_panel :: "nat \<Rightarrow> elem list \<Rightarrow> panel" where
  "markup_panel h ks =
     \<lparr> elemId = [], ariaLabelledby = None, hidden = False, noFadeClass = False,
       isClosing = None, maxHeight = MH_unset, maxHeightImportant = False,
       transition = TR_unset, overflow = [], opacity = [], naturalHeight = h,
       scrollHeight = h, kids = ks, kidStyle = (\<lambda>_. unstyled) \<rparr>"

definition markup_item :: "attributes \<Rightarrow> nat \<Rightarrow> nat \<Rightarrow> elem list \<Rightarrow> item" where
  "markup_item a c h ks =
     \<lparr> attrs = a, isOpen = False, aaDuration = None, aaEasing = None,
       toggleButton = Some \<lparr>buttonId = [], ariaControls = None,
                            ariaExpanded = Some ''false''\<rparr>,
       content = Some (markup_panel h ks), closest = Some c \<rparr>"

definition markup_page :: "nat list \<Rightarrow> (nat \<Rightarrow> item) \<Rightarrow> bool \<Rightarrow> state" where
  "markup_page d its rm =
     \<lparr> doc = d, item_of = its, instances = (\<lambda>_. None), reduced = rm, frames = [],
       listeners = [], timers = [], hasCompleted = (\<lambda>_. False), next_closure = 0 \<rparr>"

section \<open>Observations on states\<close>

text \<open>A close of item \<open>i\<close> is in flight: the guard of \<open>_closeItem\<close>.\<close>

definition closing :: "state \<Rightarrow> nat \<Rightarrow> bool" where
  "closing st i =
     (case content (item_of st i) of None \<Rightarrow> False | Some ct \<Rightarrow> isClosing ct = Some ''true'')"

definition has_parts :: "state \<Rightarrow> nat \<Rightarrow> bool" where
  "has_parts st i \<longleftrightarrow> toggleButton (item_of st i) \<noteq> None \<and> content (item_of st i) \<noteq> None"

definition group_of :: "state \<Rightarrow> nat \<Rightarrow> string option" where
  "group_of st i = attrs (item_of st i) ''data-link-group''"

text \<open>A group id without a NUL, a double quote, a backslash or a line break.\<close>

definition selector_plain :: "string \<Rightarrow> bool" where
  "selector_plain g = list_all (\<lambda>c. of_char c \<notin> {0, 34, 92, 10, 12, 13 :: nat}) g"

text \<open>The pending callbacks of item \<open>i\<close>.\<close>

definition frames_of :: "state \<Rightarrow> nat \<Rightarrow> frame_callback list" where
  "frames_of st i = filter (\<lambda>f. frame_item f = i) (frames st)"

definition listeners_of :: "state \<Rightarrow> nat \<Rightarrow> listener list" where
  "listeners_of st i = map snd (filter (\<lambda>jl. fst jl = i) (listeners st))"

text \<open>An item whose close is in flight or over.\<close>

definition close_started :: "state \<Rightarrow> nat \<Rightarrow> bool" where
  "close_started st j \<longleftrightarrow> closing st j \<or> \<not> isOpen (item_of st j)"

text \<open>The items \<open>_recalcOpenHeights\<close> writes to, and what it writes.\<close>

definition refreshed :: "item \<Rightarrow> bool" where
  "refreshed it \<longleftrightarrow>
     isOpen it \<and>
     (case content it of
        None \<Rightarrow> False
      | Some ct \<Rightarrow> isClosing ct \<noteq> Some ''true'' \<and> maxHeight ct \<noteq> MH_none)"

definition refresh :: "item \<Rightarrow> item" where
  "refresh it =
     it\<lparr>content := map_option (\<lambda>ct. set_maxHeight (MH_px (scrollHeight ct)) ct) (content it)\<rparr>"

definition panel_maxHeight :: "state \<Rightarrow> nat \<Rightarrow> max_height option" where
  "panel_maxHeight st i = map_option maxHeight (content (item_of st i))"

definition kid_opacity :: "state \<Rightarrow> nat \<Rightarrow> nat \<Rightarrow> string option" where
  "kid_opacity st i e = map_option (\<lambda>ct. c_opacity (kidStyle ct e)) (content (item_of st i))"

text \<open>
  Animations in flight. An open is in flight while its \<open>onEnd\<close> listener waits on the
  panel, a close while its fallback timer is pending: both end when the animation's
  completion has been handled.
\<close>

fun is_open_handler :: "listener \<Rightarrow> bool" where
  "is_open_handler (Open_onEnd cid) = True"
| "is_open_handler (Close_debugHandler cid) = False"
| "is_open_handler (Close_transitionEndHandler cid s) = False"

fun is_close_handler :: "listener \<Rightarrow> bool" where
  "is_close_handler (Open_onEnd cid) = False"
| "is_close_handler (Close_debugHandler cid) = False"
| "is_close_handler (Close_transitionEndHandler cid s) = True"

definition opens_in_flight :: "state \<Rightarrow> nat \<Rightarrow> nat" where
  "opens_in_flight st i =
     length (filter (\<lambda>jl. fst jl = i \<and> is_open_handler (snd jl)) (listeners st))"

definition closes_in_flight :: "state \<Rightarrow> nat \<Rightarrow> nat" where
  "closes_in_flight st i = length (filter (\<lambda>t. timer_item t = Some i) (timers st))"

definition animations_in_flight :: "state \<Rightarrow> nat \<Rightarrow> nat" where
  "animations_in_flight st i = opens_in_flight st i + closes_in_flight st i"

text \<open>
  Nothing is pending for item \<open>i\<close>. The debug handlers of earlier closes may still
  be registered on its panel: a close that ends by its fallback timer leaves one behind,
  and they only log.
\<close>

fun is_debug_handler :: "listener \<Rightarrow> bool" where
  "is_debug_handler (Open_onEnd cid) = False"
| "is_debug_handler (Close_debugHandler cid) = True"
| "is_debug_handler (Close_transitionEndHandler cid s) = False"

definition at_rest :: "state \<Rightarrow> nat \<Rightarrow> bool" where
  "at_rest st i \<longleftrightarrow>
     list_all (\<lambda>f. frame_item f \<noteq> i) (frames st) \<and>
     list_all (\<lambda>jl. fst jl \<noteq> i \<or> is_debug_handler (snd jl)) (listeners st) \<and>
     list_all (\<lambda>t. timer_item t \<noteq> Some i) (timers st)"

text \<open>The closed state of the item controller: not open, hidden, no close in flight.\<close>

definition closed_item :: "state \<Rightarrow> nat \<Rightarrow> bool" where
  "closed_item st i \<longleftrightarrow>
     has_parts st i \<and> \<not> isOpen (item_of st i) \<and> \<not> closing st i \<and> at_rest st i \<and>
     (case content (item_of st i) of None \<Rightarrow> False | Some ct \<Rightarrow> hidden ct)"

text \<open>
  An open and a close of item \<open>i\<close>, each followed by the events that complete it: the
  animation frame and, when the duration is positive, the end of the \<open>max-height\<close>
  transition of the panel; for a close, instead of that event, the fallback timer when
  \<open>by_timeout\<close> is set.
\<close>

definition resolved :: "settings \<Rightarrow> state \<Rightarrow> nat \<Rightarrow> settings" where
  "resolved dflt st i = getSettings dflt (reduced st) (attrs (item_of st i))"

definition complete_open :: "settings \<Rightarrow> nat \<Rightarrow> state \<Rightarrow> state" where
  "complete_open dflt i st =
     (let st1 = animation_frame (openItem dflt i False st)
      in if js_gt0 (duration (resolved dflt st i))
         then transitionend i Target_content ''max-height'' st1
         else st1)"

definition complete_close :: "settings \<Rightarrow> nat \<Rightarrow> bool \<Rightarrow> state \<Rightarrow> state" where
  "complete_close dflt i by_timeout st =
     (let st1 = closeItem dflt i st
      in if js_gt0 (duration (resolved dflt st i))
         then (let st2 = animation_frame st1
               in if by_timeout then fire_fallbacks i st2
                  else transitionend i Target_content ''max-height'' st2)
         else st1)"

definition open_then_close :: "settings \<Rightarrow> nat \<Rightarrow> bool \<Rightarrow> state \<Rightarrow> state" where
  "open_then_close dflt i by_timeout st =
     complete_close dflt i by_timeout (complete_open dflt i st)"

text \<open>
  The states the page can be in: static markup, then hydration of containers, clicks on
  the toggles that \<open>_initItem\<close> wired, animation frames, \<open>transitionend\<close> events,
  timers, observed resizes, layout changes, and changes of the reduced-motion preference.
  Where the selector of a click is not decided, the click is taken with every answer
  of the selector engine that stays within the items: an exception, or any list of
  items.
\<close>

inductive reachable :: "state \<Rightarrow> bool" where
  markup: "reachable (markup_page d its rm)"
| hydrated: "reachable st \<Longrightarrow> instances st c = None \<Longrightarrow>
     reachable (hydrate c container its random st)"
| click: "reachable st \<Longrightarrow> instances st c = Some this \<Longrightarrow> i \<in> set (items this) \<Longrightarrow>
     has_parts st i \<Longrightarrow> outcome_state (toggle this i st) = Some st' \<Longrightarrow> reachable st'"
| click_undecided: "reachable st \<Longrightarrow> instances st c = Some this \<Longrightarrow>
     i \<in> set (items this) \<Longrightarrow> has_parts st i \<Longrightarrow> toggle this i st = Not_decided \<Longrightarrow>
     outcome_state (toggle_by (\<lambda>_ _. found) this i st) = Some st' \<Longrightarrow> reachable st'"
| frame: "reachable st \<Longrightarrow> reachable (animation_frame st)"
| transition_end: "reachable st \<Longrightarrow> reachable (transitionend i tgt prop st)"
| timeout: "reachable st \<Longrightarrow> t \<in> set (timers st) \<Longrightarrow> reachable (fire_timer t st)"
| resize: "reachable st \<Longrightarrow> instances st c = Some this \<Longrightarrow>
     reachable (recalcOpenHeights this st)"
| layout: "reachable st \<Longrightarrow> reachable (set_layout i h sh st)"
| motion: "reachable st \<Longrightarrow> reachable (st\<lparr>reduced := b\<rparr>)"

text \<open>
  The invariant behind the close guard, for item \<open>i\<close>: at most one fallback timer and
  at most one close handler, each present only while the close flag is set, and only
  together.
\<close>

definition close_inv_at :: "state \<Rightarrow> nat \<Rightarrow> bool" where
  "close_inv_at st i \<longleftrightarrow>
     length (filter (\<lambda>t. timer_item t = Some i) (timers st)) \<le> 1 \<and>
     length (filter (\<lambda>jl. fst jl = i \<and> is_close_handler (snd jl)) (listeners st)) \<le> 1 \<and>
     (\<forall>cid s d. Fallback i cid s d \<in> set (timers st) \<longrightarrow>
        closing st i \<and> (i, Close_transitionEndHandler cid s) \<in> set (listeners st)) \<and>
     (\<forall>cid s. (i, Close_transitionEndHandler cid s) \<in> set (listeners st) \<longrightarrow>
        closing st i \<and> (\<exists>d. Fallback i cid s d \<in> set (timers st)))"

definition close_inv :: "state \<Rightarrow> bool" where
  "close_inv st \<longleftrightarrow> (\<forall>i. close_inv_at st i)"

text \<open>Neither a fallback timer nor a close handler of item \<open>i\<close> is pending.\<close>

definition quiet :: "state \<Rightarrow> nat \<Rightarrow> bool" where
  "quiet st i \<longleftrightarrow> filter (\<lambda>t. timer_item t = Some i) (timers st) = [] \<and>
     filter (\<lambda>jl. fst jl = i \<and> is_close_handler (snd jl)) (listeners st) = []"

text \<open>
  What an open followed by a close leaves of an item: the inline styles of the panel
  are cleared, and those of the animatable elements when the content fades.
\<close>

definition cleared :: "nat list \<Rightarrow> (nat \<Rightarrow> child_style) \<Rightarrow> (nat \<Rightarrow> child_style)" where
  "cleared els m = (\<lambda>e. if e \<in> set els then unstyled else m e)"

definition round_trip_item :: "settings \<Rightarrow> item \<Rightarrow> item" where
  "round_trip_item s it =
     it\<lparr>aaDuration := Some (duration s),
        aaEasing := custom_property (easing s),
        toggleButton := map_option (\<lambda>t. t\<lparr>ariaExpanded := Some ''false''\<rparr>) (toggleButton it),
        content := map_option (\<lambda>ct.
          ct\<lparr>noFadeClass := \<not> contentFade s, isClosing := Some ''false'',
             maxHeight := MH_unset, maxHeightImportant := False, transition := TR_unset,
             overflow := [], opacity := [],
             kidStyle := (if contentFade s
                          then cleared (getAnimatableElements (kids ct)) (kidStyle ct)
                          else kidStyle ct)\<rparr>) (content it)\<rparr>"

section \<open>Example pages\<close>

text \<open>One container with the default settings and one item, closed, 120 pixels high.\<close>

definition solo_item :: item where
  "solo_item = markup_item (Map.empty(''data-item-id'' \<mapsto> ''a'')) 0 120 [Elem 7 ''P'' []]"

definition solo_page :: "bool \<Rightarrow> state" where
  "solo_page rm = hydrate 0 Map.empty [0] (\<lambda>_. ''r'') (markup_page [0] (\<lambda>_. solo_item) rm)"

definition solo_defaults :: settings where
  "solo_defaults = container_defaults Map.empty"

definition solo_accordion :: accordion where
  "solo_accordion = new_accordion Map.empty [0]"

text \<open>
  One container with two items, 10 and 11. Item 10 has been opened and its transition
  has ended; item 11 has been opened and its transition is still running. Then layout
  gives both panels the height 300.
\<close>

definition resize_items :: "nat \<Rightarrow> item" where
  "resize_items =
     (\<lambda>_. markup_item Map.empty 9 0 [])
     (10 := markup_item (Map.empty(''data-item-id'' \<mapsto> ''a'')) 2 100 [Elem 20 ''P'' []],
      11 := markup_item (Map.empty(''data-item-id'' \<mapsto> ''b'')) 2 110 [Elem 21 ''P'' []])"

definition resize_accordion :: accordion where
  "resize_accordion = new_accordion Map.empty [10, 11]"

definition resize_page :: state where
  "resize_page =
     set_layout 11 300 300 (set_layout 10 300 300
       (animation_frame (openItem (defaults resize_accordion) 11 False
         (transitionend 10 Target_content ''max-height''
           (animation_frame (openItem (defaults resize_accordion) 10 False
             (hydrate 2 Map.empty [10, 11] (\<lambda>_. ''r'')
               (markup_page [10, 11] resize_items False))))))))"

text \<open>An item as it stands open with its height released, and as it stands closed.\<close>

definition shown_item :: "attributes \<Rightarrow> nat \<Rightarrow> nat \<Rightarrow> item" where
  "shown_item a c h =
     \<lparr> attrs = a, isOpen = True, aaDuration = Some (Num (4 / 10)), aaEasing = Some ''ease'',
       toggleButton = Some \<lparr>buttonId = [], ariaControls = None, ariaExpanded = Some ''true''\<rparr>,
       content = Some ((markup_panel h [])
                  \<lparr>maxHeight := MH_none, overflow := ''hidden'',
                   transition := TR_max_height (Num (4 / 10)) ''ease''\<rparr>),
       closest = Some c \<rparr>"

definition hidden_item :: "attributes \<Rightarrow> nat \<Rightarrow> nat \<Rightarrow> item" where
  "hidden_item a c h =
     \<lparr> attrs = a, isOpen = False, aaDuration = None, aaEasing = None,
       toggleButton = Some \<lparr>buttonId = [], ariaControls = None, ariaExpanded = Some ''false''\<rparr>,
       content = Some ((markup_panel h [])
                  \<lparr>hidden := True, maxHeight := MH_px 0, overflow := ''hidden''\<rparr>),
       closest = Some c \<rparr>"

text \<open>
  Three containers. Container 2 closes automatically and holds A (group \<open>h\<close>, open),
  B (group \<open>g\<close>, open) and C (group \<open>g\<close>, closed); container 3 closes automatically
  and holds D (group \<open>g\<close>, closed) and E (no group, open); container 4 holds F
  (group \<open>h\<close>, open). The items A to F are numbered 10 to 15; nothing is pending.
\<close>

definition demo_items :: "nat \<Rightarrow> item" where
  "demo_items =
     (\<lambda>_. hidden_item Map.empty 9 0)
     (10 := shown_item (Map.empty(''data-link-group'' \<mapsto> ''h'')) 2 100,
      11 := shown_item (Map.empty(''data-link-group'' \<mapsto> ''g'')) 2 110,
      12 := hidden_item (Map.empty(''data-link-group'' \<mapsto> ''g'')) 2 120,
      13 := hidden_item (Map.empty(''data-link-group'' \<mapsto> ''g'')) 3 130,
      14 := shown_item Map.empty 3 140,
      15 := shown_item (Map.empty(''data-link-group'' \<mapsto> ''h'')) 4 150)"

definition auto_container :: attributes where
  "auto_container = Map.empty(''data-auto-close'' \<mapsto> ''true'')"

definition demo_accordion :: accordion where
  "demo_accordion = new_accordion auto_container [10, 11, 12]"

definition demo_page :: state where
  "demo_page =
     \<lparr> doc = [10, 11, 12, 13, 14, 15], item_of = demo_items,
       instances = (\<lambda>_. None)
         (2 := Some demo_accordion,
          3 := Some (new_accordion auto_container [13, 14]),
          4 := Some (new_accordion Map.empty [15])),
       reduced = False, frames = [], listeners = [], timers = [],
       hasCompleted = (\<lambda>_. False), next_closure = 0 \<rparr>"

text \<open>
  The page with one item, after a click on its toggle, which opens the item, and after
  a second click at once, which closes it.
\<close>

definition clicked_once :: state where
  "clicked_once = openItem solo_defaults 0 False (solo_page False)"

definition clicked_twice :: state where
  "clicked_twice = closeItem solo_defaults 0 clicked_once"

text \<open>
  The three containers again, with the group id \<open>x"y\<close> in place of \<open>g\<close>: B, C and D
  carry it.
\<close>

definition quoted_group :: string where
  "quoted_group = [CHR ''x'', CHR 0x22, CHR ''y'']"

definition quoted_page :: state where
  "quoted_page =
     demo_page\<lparr>item_of := demo_items
       (11 := shown_item (Map.empty(''data-link-group'' \<mapsto> quoted_group)) 2 110,
        12 := hidden_item (Map.empty(''data-link-group'' \<mapsto> quoted_group)) 2 120,
        13 := hidden_item (Map.empty(''data-link-group'' \<mapsto> quoted_group)) 3 130)\<rparr>"

text \<open>
  Two containers without auto-close. Container 2 holds X, container 3 holds Y and Z;
  X and Y carry the group id of the four characters \<open>a\<close>, backslash, \<open>6\<close>, \<open>2\<close>; Z
  carries the group id \<open>ab\<close>.
  The items X, Y, Z are numbered 10, 11, 12; all are closed and nothing is pending.
\<close>

definition escaped_group :: string where
  "escaped_group = [CHR ''a'', CHR 0x5C, CHR ''6'', CHR ''2'']"

definition escape_items :: "nat \<Rightarrow> item" where
  "escape_items =
     (\<lambda>_. hidden_item Map.empty 9 0)
     (10 := hidden_item (Map.empty(''data-link-group'' \<mapsto> escaped_group)) 2 100,
      11 := hidden_item (Map.empty(''data-link-group'' \<mapsto> escaped_group)) 3 110,
      12 := hidden_item (Map.empty(''data-link-group'' \<mapsto> ''ab'')) 3 120)"

definition escape_accordion :: accordion where
  "escape_accordion = new_accordion Map.empty [10]"

definition other_accordion :: accordion where
  "other_accordion = new_accordion Map.empty [11, 12]"

definition escape_page :: state where
  "escape_page =
     \<lparr> doc = [10, 11, 12], item_of = escape_items,
       instances = (\<lambda>_. None)
         (2 := Some escape_accordion,
          3 := Some other_accordion),
       reduced = False, frames = [], listeners = [], timers = [],
       hasCompleted = (\<lambda>_. False), next_closure = 0 \<rparr>"

text \<open>The two pages after the click that opens C, and the click that opens X and then Z.\<close>

definition quoted_clicked :: state where
  "quoted_clicked = openItem (defaults demo_accordion) 12 False quoted_page"

definition escape_clicked :: state where
  "escape_clicked =
     openItem (defaults other_accordion) 12 False
       (openItem (defaults escape_accordion) 10 False escape_page)"

section \<open>Properties of the attribute readers\<close>

lemmas parse_defs =
  parseFloat_def unsigned_literal_def is_js_space_def is_digit_def digits_val_def
  digit_val_def scale10_def no_numeric_prefix_def numeric_start_def

lemma unsigned_literal_NaN_iff: "unsigned_literal u = NaN \<longleftrightarrow> \<not> numeric_start u"
proof (cases "take 8 u = ''Infinity''")
  case True
  then show ?thesis by (simp add: unsigned_literal_def numeric_start_def)
next
  case inf: False
  show ?thesis
  proof (cases u)
    case Nil
    then show ?thesis by (simp add: unsigned_literal_def numeric_start_def)
  next
    case (Cons c cs)
    show ?thesis
    proof (cases "is_digit c")
      case True
      with inf Cons show ?thesis
        by (simp add: unsigned_literal_def numeric_start_def Let_def)
    next
      case nd: False
      show ?thesis
      proof (cases "c = CHR ''.''")
        case False
        with inf Cons nd show ?thesis
          by (simp add: unsigned_literal_def numeric_start_def Let_def)
      next
        case True
        with inf Cons nd show ?thesis
          by (cases cs) (simp_all add: unsigned_literal_def numeric_start_def Let_def)
      qed
    qed
  qed
qed

lemma js_negate_NaN_iff: "js_negate x = NaN \<longleftrightarrow> x = NaN"
  by (cases x) simp_all

lemma parseFloat_NaN_iff: "parseFloat raw = NaN \<longleftrightarrow> no_numeric_prefix raw"
proof (cases "dropWhile is_js_space raw")
  case Nil
  show ?thesis unfolding parseFloat_def no_numeric_prefix_def Nil by simp
next
  case (Cons c cs)
  show ?thesis unfolding parseFloat_def no_numeric_prefix_def Cons
    by (simp add: unsigned_literal_NaN_iff js_negate_NaN_iff)
qed

text \<open>
  C1, as stated, fails: a container with \<open>data-duration="abc"\<close> gets the default
  duration NaN, not the fallback 0.4. The reader hands every present value to
  \<open>parseFloat\<close>.
\<close>

theorem dataNum_abc_is_NaN:
  "duration (container_defaults (Map.empty(''data-duration'' \<mapsto> ''abc''))) = NaN \<and>
   duration (container_defaults (Map.empty(''data-duration'' \<mapsto> ''abc''))) \<noteq> Num (4 / 10)"
  by (simp add: container_defaults_def dataNum_def getAttribute_def parse_defs)

text \<open>
  C1, amended: \<open>dataNum\<close> returns the fallback when the element or the attribute is
  absent, and otherwise what \<open>parseFloat\<close> makes of the value, whatever the fallback:
  NaN exactly for a value with no numeric prefix. It is a total function with no error
  result.
\<close>

theorem dataNum_fallback_only_when_absent:
  "(getAttribute el (''data-'' @ attr) = None \<longrightarrow> dataNum el attr fb = fb) \<and>
   (\<forall>raw. getAttribute el (''data-'' @ attr) = Some raw \<longrightarrow>
      dataNum el attr fb = parseFloat raw \<and>
      (dataNum el attr fb = NaN \<longleftrightarrow> no_numeric_prefix raw))"
  by (simp add: dataNum_def parseFloat_NaN_iff)

theorem dataNum_fallback_only_when_absent_witness:
  "dataNum (Some Map.empty) ''duration'' (Num (4 / 10)) = Num (4 / 10) \<and>
   dataNum None ''duration'' (Num (4 / 10)) = Num (4 / 10) \<and>
   dataNum (Some (Map.empty(''data-duration'' \<mapsto> ''0.25''))) ''duration'' (Num (4 / 10)) = Num (1 / 4) \<and>
   no_numeric_prefix ''abc'' \<and>
   dataNum (Some (Map.empty(''data-duration'' \<mapsto> ''abc''))) ''duration'' (Num (4 / 10)) = NaN"
  using dataNum_fallback_only_when_absent [of "Some Map.empty" "''duration''" "Num (4 / 10)"]
        dataNum_fallback_only_when_absent [of None "''duration''" "Num (4 / 10)"]
        dataNum_fallback_only_when_absent
          [of "Some (Map.empty(''data-duration'' \<mapsto> ''0.25''))" "''duration''" "Num (4 / 10)"]
        dataNum_fallback_only_when_absent
          [of "Some (Map.empty(''data-duration'' \<mapsto> ''abc''))" "''duration''" "Num (4 / 10)"]
  by (simp add: getAttribute_def parse_defs)

text \<open>
  C9: \<open>dataBool\<close> returns the fallback when the attribute is absent; when it is present
  the result is true exactly for the value \<open>true\<close>, whatever the fallback.
\<close>

theorem dataBool_exact_true:
  "(getAttribute el (''data-'' @ attr) = None \<longrightarrow> dataBool el attr fb = fb) \<and>
   (\<forall>raw. getAttribute el (''data-'' @ attr) = Some raw \<longrightarrow>
      dataBool el attr fb = (raw = ''true''))"
  by (simp add: dataBool_def)

theorem dataBool_exact_true_witness:
  "dataBool (Some (Map.empty(''data-auto-close'' \<mapsto> ''TRUE''))) ''auto-close'' True = False \<and>
   dataBool (Some (Map.empty(''data-auto-close'' \<mapsto> ''1''))) ''auto-close'' True = False \<and>
   dataBool (Some (Map.empty(''data-auto-close'' \<mapsto> ''yes''))) ''auto-close'' True = False \<and>
   dataBool (Some (Map.empty(''data-auto-close'' \<mapsto> ''true''))) ''auto-close'' False = True \<and>
   dataBool (Some Map.empty) ''auto-close'' True = True \<and>
   dataBool None ''auto-close'' False = False"
  using dataBool_exact_true [of "Some (Map.empty(''data-auto-close'' \<mapsto> ''TRUE''))" "''auto-close''" True]
        dataBool_exact_true [of "Some (Map.empty(''data-auto-close'' \<mapsto> ''1''))" "''auto-close''" True]
        dataBool_exact_true [of "Some (Map.empty(''data-auto-close'' \<mapsto> ''yes''))" "''auto-close''" True]
        dataBool_exact_true [of "Some (Map.empty(''data-auto-close'' \<mapsto> ''true''))" "''auto-close''" False]
        dataBool_exact_true [of "Some Map.empty" "''auto-close''" True]
        dataBool_exact_true [of None "''auto-close''" False]
  by (simp add: getAttribute_def)

section \<open>Properties of the settings\<close>

text \<open>
  C8: the settings of an item are a function of the container defaults, the attributes
  of the item and the reduced-motion flag alone. Each field is the default when the
  item lacks the attribute and the value read from the attribute when it is present
  (so \<open>false\<close> and \<open>0\<close> override); reduced motion then sets \<open>duration\<close>,
  \<open>fadeDuration\<close> and \<open>stagger\<close> to 0 and leaves the other three fields.
\<close>

theorem getSettings_resolution:
  "getSettings d rm it =
     \<lparr> duration = (if rm then Num 0
                   else case it ''data-duration'' of
                          None \<Rightarrow> duration d | Some raw \<Rightarrow> parseFloat raw),
       easing = (case it ''data-easing'' of None \<Rightarrow> easing d | Some raw \<Rightarrow> raw),
       contentFade = (case it ''data-content-fade'' of
                        None \<Rightarrow> contentFade d | Some raw \<Rightarrow> raw = ''true''),
       fadeDuration = (if rm then Num 0
                       else case it ''data-fade-duration'' of
                              None \<Rightarrow> fadeDuration d | Some raw \<Rightarrow> parseFloat raw),
       slideDistance = (case it ''data-slide-distance'' of
                          None \<Rightarrow> slideDistance d | Some raw \<Rightarrow> parseFloat raw),
       stagger = (if rm then Num 0
                  else case it ''data-stagger'' of
                         None \<Rightarrow> stagger d | Some raw \<Rightarrow> parseFloat raw) \<rparr>"
  by (cases d)
     (simp add: getSettings_def hasAttribute_def dataNum_def dataStr_def dataBool_def
        getAttribute_def Let_def split: option.splits)

theorem getSettings_resolution_witness:
  "getSettings (container_defaults Map.empty) False
       (Map.empty(''data-content-fade'' \<mapsto> ''false'', ''data-duration'' \<mapsto> ''0''))
     = \<lparr> duration = Num 0, easing = ''ease'', contentFade = False,
         fadeDuration = Num (3 / 10), slideDistance = Num 10, stagger = Num 0 \<rparr> \<and>
   getSettings (container_defaults Map.empty) True
       (Map.empty(''data-duration'' \<mapsto> ''0.8'', ''data-stagger'' \<mapsto> ''50'',
                  ''data-slide-distance'' \<mapsto> ''20''))
     = \<lparr> duration = Num 0, easing = ''ease'', contentFade = True,
         fadeDuration = Num 0, slideDistance = Num 20, stagger = Num 0 \<rparr>"
  using getSettings_resolution [of "container_defaults Map.empty" False
          "Map.empty(''data-content-fade'' \<mapsto> ''false'', ''data-duration'' \<mapsto> ''0'')"]
        getSettings_resolution [of "container_defaults Map.empty" True
          "Map.empty(''data-duration'' \<mapsto> ''0.8'', ''data-stagger'' \<mapsto> ''50'',
                     ''data-slide-distance'' \<mapsto> ''20'')"]
  by (simp add: container_defaults_def dataNum_def dataStr_def dataBool_def getAttribute_def
        parse_defs)

section \<open>How the operations act on the store\<close>

lemma upd_item_simps [simp]:
  "item_of (upd_item i f st) j = (if j = i then f (item_of st i) else item_of st j)"
  "doc (upd_item i f st) = doc st"
  "instances (upd_item i f st) = instances st"
  "reduced (upd_item i f st) = reduced st"
  "frames (upd_item i f st) = frames st"
  "listeners (upd_item i f st) = listeners st"
  "timers (upd_item i f st) = timers st"
  "hasCompleted (upd_item i f st) = hasCompleted st"
  "next_closure (upd_item i f st) = next_closure st"
  by (simp_all add: upd_item_def)

lemma upd_content_simps [simp]:
  "item_of (upd_content i f st) j =
     (if j = i then (item_of st i)\<lparr>content := map_option f (content (item_of st i))\<rparr> else item_of st j)"
  "doc (upd_content i f st) = doc st"
  "instances (upd_content i f st) = instances st"
  "reduced (upd_content i f st) = reduced st"
  "frames (upd_content i f st) = frames st"
  "listeners (upd_content i f st) = listeners st"
  "timers (upd_content i f st) = timers st"
  "hasCompleted (upd_content i f st) = hasCompleted st"
  "next_closure (upd_content i f st) = next_closure st"
  by (simp_all add: upd_content_def)

lemma openItem_other: "j \<noteq> i \<Longrightarrow> item_of (openItem d i b st) j = item_of st j"
  by (simp add: openItem_def Let_def split: option.splits)

lemma cleanup_other: "j \<noteq> i \<Longrightarrow> item_of (cleanup i cid s st) j = item_of st j"
  by (simp add: cleanup_def Let_def)

lemma closeItem_other: "j \<noteq> i \<Longrightarrow> item_of (closeItem d i st) j = item_of st j"
  by (simp add: closeItem_def Let_def cleanup_other split: option.splits)

lemma openItem_timers: "timers (openItem d i b st) = timers st"
  by (simp add: openItem_def Let_def split: option.splits)

lemma closeItem_noop: "closing st i \<Longrightarrow> closeItem d i st = st"
  by (auto simp add: closeItem_def closing_def Let_def split: option.splits)

lemma openItem_attrs: "attrs (item_of (openItem d i b st) j) = attrs (item_of st j)"
  by (cases "j = i") (simp_all add: openItem_def Let_def split: option.splits)

lemma cleanup_attrs: "attrs (item_of (cleanup i cid s st) j) = attrs (item_of st j)"
  by (simp add: cleanup_def Let_def)

lemma closeItem_attrs: "attrs (item_of (closeItem d i st) j) = attrs (item_of st j)"
  by (cases "j = i") (simp_all add: closeItem_def Let_def cleanup_attrs split: option.splits)

lemma openItem_doc: "doc (openItem d i b st) = doc st"
  by (simp add: openItem_def Let_def split: option.splits)
lemma cleanup_doc: "doc (cleanup i cid s st) = doc st"
  by (simp add: cleanup_def Let_def)
lemma closeItem_doc: "doc (closeItem d i st) = doc st"
  by (simp add: closeItem_def Let_def cleanup_doc split: option.splits)

lemma openItem_instances: "instances (openItem d i b st) = instances st"
  by (simp add: openItem_def Let_def split: option.splits)
lemma cleanup_instances: "instances (cleanup i cid s st) = instances st"
  by (simp add: cleanup_def Let_def)
lemma closeItem_instances: "instances (closeItem d i st) = instances st"
  by (simp add: closeItem_def Let_def cleanup_instances split: option.splits)

lemma cleanup_has_parts: "has_parts (cleanup i cid s st) j = has_parts st j"
  by (simp add: cleanup_def Let_def has_parts_def)
lemma openItem_has_parts: "has_parts (openItem d i b st) j = has_parts st j"
  by (cases "j = i") (auto simp add: openItem_def Let_def has_parts_def split: option.splits)
lemma closeItem_has_parts: "has_parts (closeItem d i st) j = has_parts st j"
  by (cases "j = i") (auto simp add: closeItem_def Let_def has_parts_def cleanup_def split: option.splits)


lemma openItemGlobal_other: "j \<noteq> k \<Longrightarrow> item_of (openItemGlobal this k st) j = item_of st j"
  by (simp add: openItemGlobal_def openItem_other split: option.splits)

lemma closeItemGlobal_other: "j \<noteq> k \<Longrightarrow> item_of (closeItemGlobal this k st) j = item_of st j"
  by (simp add: closeItemGlobal_def closeItem_other split: option.splits)

lemma sync_one_other: "j \<noteq> k \<Longrightarrow> item_of (sync_one this t b k st) j = item_of st j"
  by (simp add: sync_one_def openItemGlobal_other closeItemGlobal_other)

lemma sync_one_trigger: "item_of (sync_one this t b t st) j = item_of st j"
  by (simp add: sync_one_def)

lemma sync_one_open_unchanged:
  "isOpen (item_of st j) \<Longrightarrow> item_of (sync_one this t True k st) j = item_of st j"
  by (cases "j = k") (simp_all add: sync_one_other, simp add: sync_one_def)

lemma sync_fold_unchanged:
  "(\<forall>k \<in> set ks. k = j \<longrightarrow> k = t \<or> (b \<and> isOpen (item_of st j)) \<or> (\<not> b \<and> \<not> isOpen (item_of st j)))
    \<Longrightarrow> item_of (fold (sync_one this t b) ks st) j = item_of st j"
proof (induction ks arbitrary: st)
  case Nil
  then show ?case by simp
next
  case (Cons k ks)
  have step: "item_of (sync_one this t b k st) j = item_of st j"
  proof (cases "k = j")
    case True
    with Cons.prems show ?thesis by (auto simp: sync_one_def)
  next
    case False
    then show ?thesis by (simp add: sync_one_other)
  qed
  have "item_of (fold (sync_one this t b) ks (sync_one this t b k st)) j
        = item_of (sync_one this t b k st) j"
    using Cons.prems by (intro Cons.IH) (auto simp: step)
  with step show ?case by simp
qed

lemma autoClose_one_other:
  "j \<noteq> k \<Longrightarrow> item_of (autoClose_one this i g k st) j = item_of st j"
  by (simp add: autoClose_one_def Let_def closeItem_other)

lemma autoClose_fold_unchanged:
  "(\<forall>k \<in> set ks. k = j \<longrightarrow> k = i \<or> \<not> isOpen (item_of st j) \<or>
       (truthy (group_of st j) \<and> group_of st j = g))
    \<Longrightarrow> item_of (fold (autoClose_one this i g) ks st) j = item_of st j"
proof (induction ks arbitrary: st)
  case Nil
  then show ?case by simp
next
  case (Cons k ks)
  have step: "item_of (autoClose_one this i g k st) j = item_of st j"
  proof (cases "k = j")
    case True
    with Cons.prems show ?thesis by (auto simp: autoClose_one_def group_of_def Let_def)
  next
    case False
    then show ?thesis by (simp add: autoClose_one_other)
  qed
  have "item_of (fold (autoClose_one this i g) ks (autoClose_one this i g k st)) j
        = item_of (autoClose_one this i g k st) j"
    using Cons.prems by (intro Cons.IH) (auto simp: step group_of_def)
  with step show ?case by simp
qed


lemma openItem_reduced: "reduced (openItem d i b st) = reduced st"
  by (simp add: openItem_def Let_def split: option.splits)
lemma cleanup_reduced: "reduced (cleanup i cid s st) = reduced st"
  by (simp add: cleanup_def Let_def)
lemma closeItem_reduced: "reduced (closeItem d i st) = reduced st"
  by (simp add: closeItem_def Let_def cleanup_reduced split: option.splits)
lemma sync_one_reduced: "reduced (sync_one this t b k st) = reduced st"
  by (simp add: sync_one_def openItemGlobal_def closeItemGlobal_def openItem_reduced
      closeItem_reduced split: option.splits)
lemma sync_fold_reduced: "reduced (fold (sync_one this t b) ks st) = reduced st"
  by (induction ks arbitrary: st) (simp_all add: sync_one_reduced)
lemma autoClose_one_reduced: "reduced (autoClose_one this i g k st) = reduced st"
  by (simp add: autoClose_one_def Let_def closeItem_reduced)

lemma sync_fold_notin:
  "j \<notin> set ks \<Longrightarrow> item_of (fold (sync_one this t b) ks st) j = item_of st j"
  by (rule sync_fold_unchanged) auto

lemma closeItem_item_cong:
  "item_of s j = item_of st j \<Longrightarrow> reduced s = reduced st \<Longrightarrow>
   item_of (closeItem d j s) j = item_of (closeItem d j st) j"
  by (simp add: closeItem_def cleanup_def Let_def split: option.splits)

lemma closeItem_result:
  "closing (closeItem d j st) j \<or> \<not> isOpen (item_of (closeItem d j st) j) \<or> \<not> has_parts st j"
  by (auto simp add: closeItem_def cleanup_def Let_def closing_def has_parts_def
        set_maxHeight_important_def split: option.splits)

subsection \<open>The selector of an ordinary group id\<close>

lemma css_input_plain:
  "list_all (\<lambda>c. c \<notin> {0, 10, 12, 13}) cs \<Longrightarrow> css_input b cs = cs"
  by (induction cs arbitrary: b) auto

lemma consume_string_plain:
  "list_all (\<lambda>c. c \<notin> {34, 92, 10}) cs \<Longrightarrow>
   consume_string acc (cs @ 34 # rest) = String_token (acc @ cs) rest"
  by (induction cs arbitrary: acc) auto

text \<open>
  For a group id without a NUL, a double quote, a backslash or a line break the selector
  is the attribute selector for the id itself.
\<close>

lemma linked_selector_plain:
  assumes "selector_plain g"
  shows "linked_selector g = Attr_equals (map of_char g)"
proof -
  have a: "list_all (\<lambda>c. c \<notin> {0, 10, 12, 13}) (map of_char g @ [34, 93 :: nat])"
    using assms by (induction g) (auto simp: selector_plain_def)
  have b: "list_all (\<lambda>c. c \<notin> {34, 92, 10 :: nat}) (map of_char g)"
    using assms by (induction g) (auto simp: selector_plain_def)
  show ?thesis
    unfolding linked_selector_def css_input_plain[OF a]
    using consume_string_plain[OF b, of "[]" "[93]"] by simp
qed

lemma querySelectorAll_linked_cong:
  "(\<And>k. attrs (item_of s k) = attrs (item_of st k)) \<Longrightarrow> doc s = doc st \<Longrightarrow>
   querySelectorAll_linked s g = querySelectorAll_linked st g"
  by (simp add: querySelectorAll_linked_def split: linked_selector.splits)

subsection \<open>What a click leaves alone\<close>

text \<open>
  A click on the toggle of item \<open>i\<close> leaves every other item as it was, unless the
  selector of the group of \<open>i\<close> selects it or it is an open sibling of \<open>i\<close> in a container
  that closes automatically while \<open>i\<close> opens. So neither the closing of a sibling nor
  the opening or closing of a selected item reaches the groups or containers of those
  items.
\<close>

lemma toggle_frame:
  assumes out: "outcome_state (toggle this i st) = Some st'" and ne: "j \<noteq> i"
    and nl: "\<And>g js. group_of st i = Some g \<Longrightarrow> g \<noteq> [] \<Longrightarrow>
               querySelectorAll_linked st g = Value js \<Longrightarrow> j \<notin> set js"
    and ns: "\<not> (autoClose this \<and> \<not> isOpen (item_of st i) \<and> j \<in> set (items this) \<and>
               isOpen (item_of st j))"
  shows "item_of st' j = item_of st j"
proof -
  define st1 where "st1 = (if isOpen (item_of st i) then closeItem (defaults this) i st
                 else openItem (defaults this) i False st)"
  have s1: "item_of st1 j = item_of st j"
    using ne by (simp add: st1_def openItem_other closeItem_other)
  have a1: "attrs (item_of st1 k) = attrs (item_of st k)" for k
    by (simp add: st1_def openItem_attrs closeItem_attrs)
  have d1: "doc st1 = doc st"
    by (simp add: st1_def openItem_doc closeItem_doc)
  have q1: "querySelectorAll_linked st1 g = querySelectorAll_linked st g" for g
    using a1 d1 by (rule querySelectorAll_linked_cong)
  have sync: "item_of st2 j = item_of st j"
    if "syncLinkedGroup querySelectorAll_linked this g i b st1 = Value st2"
       "group_of st i = Some g" "g \<noteq> []" for g b st2
    using that nl[of g] s1
    by (auto simp: syncLinkedGroup_def q1 sync_fold_notin split: completion.splits)
  have ac: "item_of (fold (autoClose_one this i g) (items this) st2) j = item_of st j"
    if "item_of st2 j = item_of st j" "\<not> isOpen (item_of st i)" "autoClose this" for st2 g
  proof -
    have "item_of (fold (autoClose_one this i g) (items this) st2) j = item_of st2 j"
      using that ns by (intro autoClose_fold_unchanged) auto
    with that show ?thesis by simp
  qed
  show ?thesis
    using out s1 sync ac
    unfolding toggle_def toggle_by_def Let_def st1_def[symmetric] outcome_state_def
    by (auto simp: a1 group_of_def split: option.splits completion.splits if_splits)
qed

subsection \<open>What auto-close does when the click returns\<close>

lemma autoClose_one_closed_stays:
  "close_started st j \<or> \<not> has_parts st j \<Longrightarrow>
   item_of (autoClose_one this i g j st) j = item_of st j"
proof -
  assume a: "close_started st j \<or> \<not> has_parts st j"
  have "closing st j \<or> \<not> isOpen (item_of st j) \<or> \<not> has_parts st j"
    using a by (auto simp: close_started_def)
  then show ?thesis
  proof (elim disjE)
    assume "closing st j"
    then show ?thesis by (simp add: autoClose_one_def Let_def closeItem_noop)
  next
    assume "\<not> isOpen (item_of st j)"
    then show ?thesis by (simp add: autoClose_one_def)
  next
    assume "\<not> has_parts st j"
    then have "closeItem (defaults this) j st = st"
      by (auto simp: closeItem_def has_parts_def Let_def split: option.splits)
    then show ?thesis by (simp add: autoClose_one_def Let_def)
  qed
qed

lemma autoClose_fold_closes:
  assumes "j \<noteq> i" "\<not> (truthy (group_of st0 j) \<and> group_of st0 j = g)"
    and "isOpen (item_of st0 j)"
  shows "(item_of st j = item_of st0 j \<and> j \<in> set ks \<or>
          item_of st j = item_of (closeItem (defaults this) j st0) j)
         \<Longrightarrow> reduced st = reduced st0
         \<Longrightarrow> item_of (fold (autoClose_one this i g) ks st) j
               = item_of (closeItem (defaults this) j st0) j"
proof (induction ks arbitrary: st)
  case Nil
  then show ?case by simp
next
  case (Cons k ks)
  let ?X = "item_of (closeItem (defaults this) j st0) j"
  let ?st' = "autoClose_one this i g k st"
  have red: "reduced ?st' = reduced st0"
    using Cons.prems(2) by (simp add: autoClose_one_reduced)
  have "item_of ?st' j = item_of st0 j \<and> j \<in> set ks \<or> item_of ?st' j = ?X"
  proof (cases "k = j")
    case False
    with Cons.prems(1) show ?thesis by (auto simp: autoClose_one_other)
  next
    case True
    from Cons.prems(1) show ?thesis
    proof
      assume a: "item_of st j = item_of st0 j \<and> j \<in> set (k # ks)"
      then have "item_of ?st' j = item_of (closeItem (defaults this) j st) j"
        using assms True by (auto simp: autoClose_one_def Let_def group_of_def)
      also have "\<dots> = ?X"
        using a Cons.prems(2) by (intro closeItem_item_cong) auto
      finally show ?thesis by simp
    next
      assume b: "item_of st j = ?X"
      have "close_started st j \<or> \<not> has_parts st j"
      proof -
        from closeItem_result[of "defaults this" j st0]
        have "closing (closeItem (defaults this) j st0) j \<or>
              \<not> isOpen (item_of (closeItem (defaults this) j st0) j) \<or> \<not> has_parts st0 j" .
        moreover have "has_parts st j = has_parts st0 j"
          using b closeItem_has_parts[of "defaults this" j st0 j] by (simp add: has_parts_def)
        ultimately show ?thesis using b by (auto simp: close_started_def closing_def)
      qed
      then have "item_of ?st' j = item_of st j"
        unfolding True by (rule autoClose_one_closed_stays)
      with b show ?thesis by simp
    qed
  qed
  then have "item_of (fold (autoClose_one this i g) ks ?st') j = ?X"
    using red by (rule Cons.IH)
  then show ?case by simp
qed


lemma sync_fold_open_unchanged:
  "isOpen (item_of st j) \<Longrightarrow> item_of (fold (sync_one this t True) ks st) j = item_of st j"
  by (rule sync_fold_unchanged) auto

text \<open>
  In a container that closes automatically, when a click that opens item \<open>i\<close> returns,
  every other sibling \<open>j\<close> that was open is either left as it was, when it carries the
  same link group as \<open>i\<close>, or is what \<open>_closeItem\<close> makes of it: its close is in flight
  or over. To carry a link group is to have a non-empty \<open>data-link-group\<close>, as the
  script tests it.
\<close>

lemma autoClose_when_returned:
  assumes ret: "toggle this i st = Returned st'"
    and ac: "autoClose this" and closed: "\<not> isOpen (item_of st i)"
    and sib: "j \<in> set (items this)" "j \<noteq> i" and op: "isOpen (item_of st j)"
  shows "if truthy (group_of st j) \<and> group_of st j = group_of st i
         then item_of st' j = item_of st j
         else item_of st' j = item_of (closeItem (defaults this) j st) j \<and>
              (has_parts st j \<longrightarrow> close_started st' j)"
proof -
  define st1 where "st1 = openItem (defaults this) i False st"
  define g where "g = group_of st i"
  have g1: "attrs (item_of st1 i) ''data-link-group'' = g"
    by (simp add: st1_def g_def group_of_def openItem_attrs)
  have s1: "item_of st1 j = item_of st j"
    using sib by (simp add: st1_def openItem_other)
  have r1: "reduced st1 = reduced st"
    by (simp add: st1_def openItem_reduced)
  obtain st2 where st': "st' = fold (autoClose_one this i g) (items this) st2"
    and s2: "item_of st2 j = item_of st j" and r2: "reduced st2 = reduced st"
  proof (cases "truthy g")
    case False
    then have "st' = fold (autoClose_one this i g) (items this) st1"
      using ret closed ac g1
      by (auto simp: toggle_def toggle_by_def Let_def st1_def truthy_def split: option.splits)
    with s1 r1 that show ?thesis by blast
  next
    case True
    then obtain x where x: "g = Some x" "x \<noteq> []"
      by (auto simp: truthy_def split: option.splits)
    from ret closed ac g1 x obtain ks where
      "st' = fold (autoClose_one this i g) (items this) (fold (sync_one this i True) ks st1)"
      by (auto simp: toggle_def toggle_by_def Let_def st1_def syncLinkedGroup_def
               split: completion.splits)
    moreover have "item_of (fold (sync_one this i True) ks st1) j = item_of st j"
      using op s1 sync_fold_open_unchanged[of st1 j this i ks] by simp
    moreover have "reduced (fold (sync_one this i True) ks st1) = reduced st"
      by (simp add: sync_fold_reduced r1)
    ultimately show ?thesis using that by blast
  qed
  show ?thesis
  proof (cases "truthy (group_of st j) \<and> group_of st j = group_of st i")
    case True
    have "item_of st' j = item_of st2 j"
      unfolding st' using True s2
      by (intro autoClose_fold_unchanged) (auto simp: group_of_def g_def)
    with s2 True show ?thesis by auto
  next
    case False
    have X: "item_of st' j = item_of (closeItem (defaults this) j st) j"
      unfolding st' using sib op False s2 r2
      by (intro autoClose_fold_closes) (auto simp: g_def)
    have "has_parts st j \<Longrightarrow> close_started st' j"
      using closeItem_result[of "defaults this" j st] X
      by (auto simp: close_started_def closing_def)
    with X False show ?thesis by auto
  qed
qed

lemma recalc_one_item:
  "item_of (recalc_one k st) j =
     (if j = k \<and> refreshed (item_of st j) then refresh (item_of st j) else item_of st j)"
  by (auto simp: recalc_one_def refreshed_def refresh_def Let_def split: option.splits)

lemma refresh_idem: "refreshed it \<Longrightarrow> refreshed (refresh it) \<and> refresh (refresh it) = refresh it"
  by (auto simp: refreshed_def refresh_def set_maxHeight_def split: option.splits)

lemma recalc_fold_item:
  "item_of (fold recalc_one ks st) j =
     (if j \<in> set ks \<and> refreshed (item_of st j) then refresh (item_of st j) else item_of st j)"
proof (induction ks arbitrary: st)
  case Nil
  then show ?case by simp
next
  case (Cons k ks)
  show ?case
    using refresh_idem[of "item_of st j"]
    by (auto simp: Cons.IH recalc_one_item)
qed

lemma recalc_one_rest:
  "doc (recalc_one k st) = doc st \<and> instances (recalc_one k st) = instances st \<and>
   reduced (recalc_one k st) = reduced st \<and> frames (recalc_one k st) = frames st \<and>
   listeners (recalc_one k st) = listeners st \<and> timers (recalc_one k st) = timers st \<and>
   hasCompleted (recalc_one k st) = hasCompleted st \<and> next_closure (recalc_one k st) = next_closure st"
  by (simp add: recalc_one_def Let_def split: option.splits)

lemma recalc_fold_rest:
  "frames (fold recalc_one ks st) = frames st \<and> listeners (fold recalc_one ks st) = listeners st \<and>
   timers (fold recalc_one ks st) = timers st"
  by (induction ks arbitrary: st) (simp_all add: recalc_one_rest)

section \<open>Evaluation of the example pages\<close>

lemmas model_defs =
  hydrate_def new_accordion_def initItem_def openItem_def closeItem_def cleanup_def
  container_defaults_def dataNum_def dataStr_def dataBool_def getAttribute_def getSettings_def
  hasAttribute_def markup_page_def markup_item_def markup_panel_def unstyled_def
  set_maxHeight_def set_maxHeight_important_def custom_property_def forEach_style_def
  forEach_style_indexed_def fadeInChildren_def fadeOutChildren_def getAnimatableElements_def
  is_list_elem_def truthy_def animation_frame_def transitionend_def is_fallback_of_def
  set_layout_def panel_maxHeight_def kid_opacity_def closing_def has_parts_def group_of_def
  close_started_def Let_def

lemmas solo_defs = solo_page_def solo_item_def solo_defaults_def solo_accordion_def

lemma resize_page_eval:
  "items resize_accordion = [10, 11] \<and>
   isOpen (item_of resize_page 10) \<and> isOpen (item_of resize_page 11) \<and>
   \<not> closing resize_page 10 \<and> \<not> closing resize_page 11 \<and>
   panel_maxHeight resize_page 10 = Some MH_none \<and>
   panel_maxHeight resize_page 11 = Some (MH_px 110) \<and>
   listeners resize_page = [(11, Open_onEnd (Suc 0))] \<and>
   map_option scrollHeight (content (item_of resize_page 10)) = Some 300 \<and>
   map_option scrollHeight (content (item_of resize_page 11)) = Some 300"
  by (simp add: resize_page_def resize_accordion_def resize_items_def model_defs)

lemma demo_page_eval:
  "autoClose demo_accordion \<and> items demo_accordion = [10, 11, 12] \<and>
   isOpen (item_of demo_page 10) \<and> isOpen (item_of demo_page 11) \<and>
   \<not> isOpen (item_of demo_page 12) \<and> \<not> isOpen (item_of demo_page 13) \<and>
   isOpen (item_of demo_page 14) \<and> isOpen (item_of demo_page 15) \<and>
   group_of demo_page 10 = Some ''h'' \<and> group_of demo_page 11 = Some ''g'' \<and>
   group_of demo_page 12 = Some ''g'' \<and> group_of demo_page 13 = Some ''g'' \<and>
   group_of demo_page 14 = None \<and> group_of demo_page 15 = Some ''h'' \<and>
   has_parts demo_page 10 \<and> \<not> closing demo_page 10"
  by (simp add: demo_page_def demo_accordion_def demo_items_def auto_container_def
      shown_item_def hidden_item_def new_accordion_def dataBool_def getAttribute_def
      group_of_def has_parts_def closing_def markup_panel_def)

lemmas selector_defs =
  linked_selector_def after_value_def is_name_char_def is_name_start_def
  escaped_code_point_def is_css_space_def hex_val_def hex_digit_val_def is_hex_digit_def

lemmas click_defs =
  toggle_def toggle_by_def syncLinkedGroup_def querySelectorAll_linked_def has_value_def
  sync_one_def openItemGlobal_def closeItemGlobal_def instanceForItem_def autoClose_one_def

lemmas page_defs =
  demo_page_def demo_accordion_def demo_items_def auto_container_def shown_item_def
  hidden_item_def quoted_page_def quoted_group_def escape_page_def escape_items_def
  escaped_group_def escape_accordion_def other_accordion_def

lemma demo_toggle_eval:
  "case toggle demo_accordion 12 demo_page of
     Returned st' \<Rightarrow>
       isOpen (item_of st' 12) \<and> isOpen (item_of st' 13) \<and>
       item_of st' 11 = item_of demo_page 11 \<and>
       closing st' 10 \<and> closes_in_flight st' 10 = Suc 0 \<and> length (frames_of st' 10) = Suc 0
   | Threw e st' \<Rightarrow> False
   | Not_decided \<Rightarrow> False"
  by (simp add: page_defs click_defs selector_defs model_defs closes_in_flight_def frames_of_def)

lemma quoted_selector: "linked_selector quoted_group = Invalid_selector"
  by (simp add: quoted_group_def selector_defs)

lemma escaped_selector: "linked_selector escaped_group = Attr_equals [97, 98]"
  by (simp add: escaped_group_def selector_defs)

lemma quoted_page_eval:
  "isOpen (item_of quoted_page 10) \<and> isOpen (item_of quoted_page 11) \<and>
   \<not> isOpen (item_of quoted_page 12) \<and>
   group_of quoted_page 10 = Some ''h'' \<and> group_of quoted_page 11 = Some quoted_group \<and>
   group_of quoted_page 12 = Some quoted_group \<and> quoted_group \<noteq> [] \<and>
   \<not> closing quoted_page 10 \<and> frames quoted_page = [] \<and> listeners quoted_page = [] \<and>
   timers quoted_page = []"
  by (simp add: page_defs group_of_def closing_def markup_panel_def)

lemma quoted_clicked_eval:
  "isOpen (item_of quoted_clicked 12) \<and> item_of quoted_clicked 10 = item_of quoted_page 10 \<and>
   item_of quoted_clicked 11 = item_of quoted_page 11 \<and>
   frames_of quoted_clicked 10 = [] \<and> listeners_of quoted_clicked 10 = [] \<and>
   closes_in_flight quoted_clicked 10 = 0"
  by (simp add: quoted_clicked_def page_defs model_defs closes_in_flight_def frames_of_def
      listeners_of_def)

lemma quoted_toggle_eval:
  "toggle demo_accordion 12 quoted_page = Threw SyntaxError quoted_clicked"
  using quoted_page_eval quoted_selector
  by (simp add: toggle_def toggle_by_def syncLinkedGroup_def querySelectorAll_linked_def
      Let_def openItem_attrs group_of_def quoted_clicked_def)

lemma escape_page_eval:
  "\<not> autoClose escape_accordion \<and> items escape_accordion = [10] \<and>
   \<not> isOpen (item_of escape_page 10) \<and> \<not> isOpen (item_of escape_page 11) \<and>
   \<not> isOpen (item_of escape_page 12) \<and>
   group_of escape_page 10 = Some escaped_group \<and> group_of escape_page 11 = Some escaped_group \<and>
   group_of escape_page 12 = Some ''ab'' \<and> escaped_group \<noteq> ''ab'' \<and> escaped_group \<noteq> [] \<and>
   doc escape_page = [10, 11, 12] \<and>
   instanceForItem escape_page 12 = Some other_accordion"
  by (simp add: page_defs group_of_def new_accordion_def dataBool_def getAttribute_def
      instanceForItem_def)

lemma escape_query_eval: "querySelectorAll_linked escape_page escaped_group = Value [12]"
  using escape_page_eval escaped_selector
  by (simp add: querySelectorAll_linked_def has_value_def group_of_def escaped_group_def)

lemma escape_toggle_eval:
  "toggle escape_accordion 10 escape_page = Returned escape_clicked"
proof -
  let ?st1 = "openItem (defaults escape_accordion) 10 False escape_page"
  have q: "querySelectorAll_linked ?st1 escaped_group = Value [12]"
    using escape_query_eval
    by (simp add: querySelectorAll_linked_cong[of ?st1 escape_page] openItem_attrs openItem_doc)
  have o: "\<not> isOpen (item_of ?st1 12)"
    using escape_page_eval by (simp add: openItem_other)
  have i: "instanceForItem ?st1 12 = Some other_accordion"
    using escape_page_eval
    by (simp add: instanceForItem_def openItem_other openItem_instances split: option.splits)
  show ?thesis
    using escape_page_eval q o i
    by (simp add: toggle_def toggle_by_def syncLinkedGroup_def Let_def openItem_attrs
        group_of_def sync_one_def openItemGlobal_def escape_clicked_def)
qed

lemma escape_clicked_eval:
  "isOpen (item_of escape_clicked 10) \<and> isOpen (item_of escape_clicked 12) \<and>
   item_of escape_clicked 11 = item_of escape_page 11 \<and>
   opens_in_flight escape_clicked 12 = Suc 0 \<and> length (frames_of escape_clicked 12) = Suc 0"
  by (simp add: escape_clicked_def page_defs model_defs opens_in_flight_def frames_of_def)

section \<open>Properties of toggling\<close>

text \<open>
  C5 on the code: container 2 closes automatically and holds A (open), B (open) and C
  (closed); B and C share the group id \<open>x"y\<close>. A click on the toggle of C opens C; the
  selector the script builds from the group id is no selector, \<open>querySelectorAll\<close>
  throws, and the handler ends before its auto-close loop: A stays as it was, open,
  with no close started. With the group id \<open>g\<close> in place of \<open>x"y\<close> the same click
  returns, leaves B as it was and starts the close of A.
\<close>

theorem autoClose_skipped_when_selector_throws:
  "autoClose demo_accordion \<and> items demo_accordion = [10, 11, 12] \<and>
   isOpen (item_of quoted_page 10) \<and> isOpen (item_of quoted_page 11) \<and>
   \<not> isOpen (item_of quoted_page 12) \<and>
   group_of quoted_page 11 = Some quoted_group \<and> group_of quoted_page 12 = Some quoted_group \<and>
   group_of quoted_page 10 = Some ''h'' \<and>
   linked_selector quoted_group = Invalid_selector \<and>
   toggle demo_accordion 12 quoted_page = Threw SyntaxError quoted_clicked \<and>
   isOpen (item_of quoted_clicked 12) \<and>
   item_of quoted_clicked 10 = item_of quoted_page 10 \<and>
   frames_of quoted_clicked 10 = [] \<and> listeners_of quoted_clicked 10 = [] \<and>
   closes_in_flight quoted_clicked 10 = 0 \<and>
   (case toggle demo_accordion 12 demo_page of
      Returned st' \<Rightarrow>
        isOpen (item_of st' 12) \<and> item_of st' 11 = item_of demo_page 11 \<and>
        closing st' 10 \<and> closes_in_flight st' 10 = Suc 0 \<and> length (frames_of st' 10) = Suc 0
    | Threw e st' \<Rightarrow> False
    | Not_decided \<Rightarrow> False)"
proof -
  have "case toggle demo_accordion 12 demo_page of
      Returned st' \<Rightarrow>
        isOpen (item_of st' 12) \<and> item_of st' 11 = item_of demo_page 11 \<and>
        closing st' 10 \<and> closes_in_flight st' 10 = Suc 0 \<and> length (frames_of st' 10) = Suc 0
    | Threw e st' \<Rightarrow> False
    | Not_decided \<Rightarrow> False"
    using demo_toggle_eval by (cases "toggle demo_accordion 12 demo_page") simp_all
  then show ?thesis
    using demo_page_eval quoted_page_eval quoted_selector quoted_toggle_eval quoted_clicked_eval
    by simp
qed

text \<open>
  C10 on the code: X, in container 2, carries the group id of the four characters \<open>a\<close>,
  backslash, \<open>6\<close>, \<open>2\<close>; Y carries the same id and Z the id \<open>ab\<close>, both in container 3.
  In the selector the backslash starts an escape, and the selector is the one for the
  value \<open>ab\<close>. A click on the toggle of X opens X and then Z, an item outside the group
  of X, and leaves Y, the other item of the group of X, closed.
\<close>

theorem escaped_group_id_opens_another_group:
  "group_of escape_page 10 = Some escaped_group \<and>
   group_of escape_page 11 = Some escaped_group \<and>
   group_of escape_page 12 = Some ''ab'' \<and> escaped_group \<noteq> ''ab'' \<and>
   \<not> isOpen (item_of escape_page 10) \<and> \<not> isOpen (item_of escape_page 11) \<and>
   \<not> isOpen (item_of escape_page 12) \<and>
   \<not> autoClose escape_accordion \<and> items escape_accordion = [10] \<and>
   linked_selector escaped_group = Attr_equals [97, 98] \<and>
   querySelectorAll_linked escape_page escaped_group = Value [12] \<and>
   toggle escape_accordion 10 escape_page = Returned escape_clicked \<and>
   isOpen (item_of escape_clicked 10) \<and> isOpen (item_of escape_clicked 12) \<and>
   item_of escape_clicked 11 = item_of escape_page 11 \<and>
   opens_in_flight escape_clicked 12 = Suc 0 \<and> length (frames_of escape_clicked 12) = Suc 0"
  using escape_page_eval escaped_selector escape_query_eval escape_toggle_eval
    escape_clicked_eval
  by simp

section \<open>Properties of opening\<close>

text \<open>
  C2 on the code: with reduced motion the duration of the example item resolves to 0,
  yet \<open>_openItem\<close> requests an animation frame. When the click handler returns, the
  children of the panel stand at opacity 0; the frame then puts the pixel height back
  on the panel, which the synchronous part had released, and fades the children in.
\<close>

theorem open_with_duration_zero_requests_frame:
  "duration (getSettings solo_defaults (reduced (solo_page True))
      (attrs (item_of (solo_page True) 0))) = Num 0 \<and>
   frames (solo_page True) = [] \<and>
   length (frames (openItem solo_defaults 0 False (solo_page True))) = Suc 0 \<and>
   panel_maxHeight (openItem solo_defaults 0 False (solo_page True)) 0 = Some MH_none \<and>
   kid_opacity (openItem solo_defaults 0 False (solo_page True)) 0 7 = Some ''0'' \<and>
   panel_maxHeight (animation_frame (openItem solo_defaults 0 False (solo_page True))) 0
     = Some (MH_px 120) \<and>
   kid_opacity (animation_frame (openItem solo_defaults 0 False (solo_page True))) 0 7
     = Some ''1''"
  by (simp add: solo_defs model_defs)

text \<open>
  C6 on the code: with the default duration 0.4 \<open>_openItem\<close> sets no timer. Once the
  frame has run the panel keeps its pixel height until a \<open>transitionend\<close> event for
  \<open>max-height\<close> arrives; an event for another property does not release it. A close
  of the same item does set its fallback timer.
\<close>

theorem open_sets_no_fallback_timer:
  "js_gt0 (duration (getSettings solo_defaults (reduced (solo_page False))
      (attrs (item_of (solo_page False) 0)))) \<and>
   timers (openItem solo_defaults 0 False (solo_page False)) = [] \<and>
   listeners (openItem solo_defaults 0 False (solo_page False)) = [(0, Open_onEnd 0)] \<and>
   timers (animation_frame (openItem solo_defaults 0 False (solo_page False))) = [] \<and>
   panel_maxHeight (animation_frame (openItem solo_defaults 0 False (solo_page False))) 0
     = Some (MH_px 120) \<and>
   panel_maxHeight (transitionend 0 (Target_descendant 7) ''opacity''
       (animation_frame (openItem solo_defaults 0 False (solo_page False)))) 0
     = Some (MH_px 120) \<and>
   length (filter (\<lambda>t. timer_item t = Some 0) (timers (closeItem solo_defaults 0
       (animation_frame (openItem solo_defaults 0 False (solo_page False)))))) = Suc 0"
  by (simp add: solo_defs model_defs)

section \<open>Properties of the resize handler\<close>

text \<open>
  C7, as stated, fails. On the example page item 10 is open with its height released
  and item 11 is open in the middle of its transition; both panels have the scroll
  height 300. \<open>_recalcOpenHeights\<close> leaves the released panel at \<open>none\<close> and sets the
  panel in transition to 300 pixels.
\<close>

theorem recalc_skips_released_panel:
  "isOpen (item_of resize_page 10) \<and> \<not> closing resize_page 10 \<and>
   panel_maxHeight resize_page 10 = Some MH_none \<and>
   map_option scrollHeight (content (item_of resize_page 10)) = Some 300 \<and>
   panel_maxHeight (recalcOpenHeights resize_accordion resize_page) 10 = Some MH_none \<and>
   isOpen (item_of resize_page 11) \<and> listeners resize_page = [(11, Open_onEnd (Suc 0))] \<and>
   panel_maxHeight resize_page 11 = Some (MH_px 110) \<and>
   panel_maxHeight (recalcOpenHeights resize_accordion resize_page) 11 = Some (MH_px 300)"
proof -
  have r: "panel_maxHeight (recalcOpenHeights resize_accordion resize_page) j =
        (if j \<in> set (items resize_accordion) \<and> refreshed (item_of resize_page j)
         then map_option (\<lambda>ct. MH_px (scrollHeight ct)) (content (item_of resize_page j))
         else panel_maxHeight resize_page j)" for j
    by (cases "content (item_of resize_page j)")
       (simp_all add: recalcOpenHeights_def recalc_fold_item panel_maxHeight_def refresh_def
          set_maxHeight_def)
  have "\<not> refreshed (item_of resize_page 10)" "refreshed (item_of resize_page 11)"
    using resize_page_eval
    by (auto simp: refreshed_def panel_maxHeight_def closing_def split: option.splits)
  then show ?thesis
    using resize_page_eval by (simp add: r)
qed

text \<open>
  C7, amended: \<open>_recalcOpenHeights\<close> changes exactly the items of the container that
  are open, not closing, and whose panel has a \<open>max-height\<close> other than \<open>none\<close>: each
  gets the scroll height of its panel, in pixels, as \<open>max-height\<close>. Every other item,
  and every pending callback, is left as it was.
\<close>

theorem recalc_refreshes_constrained_open_panels:
  "item_of (recalcOpenHeights this st) j =
     (if j \<in> set (items this) \<and> refreshed (item_of st j) then refresh (item_of st j)
      else item_of st j) \<and>
   frames (recalcOpenHeights this st) = frames st \<and>
   listeners (recalcOpenHeights this st) = listeners st \<and>
   timers (recalcOpenHeights this st) = timers st"
  by (simp add: recalcOpenHeights_def recalc_fold_item recalc_fold_rest)

theorem recalc_refreshes_constrained_open_panels_witness:
  "items resize_accordion = [10, 11] \<and>
   \<not> refreshed (item_of resize_page 10) \<and> refreshed (item_of resize_page 11) \<and>
   item_of (recalcOpenHeights resize_accordion resize_page) 10 = item_of resize_page 10 \<and>
   item_of (recalcOpenHeights resize_accordion resize_page) 11
     = refresh (item_of resize_page 11) \<and>
   item_of (recalcOpenHeights resize_accordion resize_page) 12 = item_of resize_page 12"
proof -
  have "\<not> refreshed (item_of resize_page 10)" "refreshed (item_of resize_page 11)"
    using resize_page_eval
    by (auto simp: refreshed_def panel_maxHeight_def closing_def split: option.splits)
  then show ?thesis
    using resize_page_eval
      recalc_refreshes_constrained_open_panels [of resize_accordion resize_page 10]
      recalc_refreshes_constrained_open_panels [of resize_accordion resize_page 11]
      recalc_refreshes_constrained_open_panels [of resize_accordion resize_page 12]
    by simp
qed

section \<open>The close guard as an invariant\<close>

lemma at_most_one_is:
  "length (filter P xs) \<le> 1 \<Longrightarrow> x \<in> set xs \<Longrightarrow> P x \<Longrightarrow> filter P xs = [x]"
proof -
  assume a: "length (filter P xs) \<le> 1" "x \<in> set xs" "P x"
  then have m: "x \<in> set (filter P xs)" by simp
  show ?thesis
  proof (cases "filter P xs")
    case Nil
    with m show ?thesis by simp
  next
    case (Cons y ys)
    with a(1) have "ys = []" by simp
    with Cons m show ?thesis by simp
  qed
qed

lemma filter_removeAll: "filter P (removeAll x xs) = removeAll x (filter P xs)"
  by (induction xs) auto

lemma filter_remove1_other: "\<not> P x \<Longrightarrow> filter P (remove1 x xs) = filter P xs"
  by (induction xs) auto

lemma filter_removeAll_other: "\<not> P x \<Longrightarrow> filter P (removeAll x xs) = filter P xs"
  by (induction xs) auto

lemma closing_upd_item:
  "closing (upd_item k f st) j = (if j = k then closing (st\<lparr>item_of := (item_of st)(k := f (item_of st k))\<rparr>) k else closing st j)"
  by (simp add: closing_def upd_item_def)

lemma closing_cong: "item_of st' j = item_of st j \<Longrightarrow> closing st' j = closing st j"
  by (simp add: closing_def)

lemma close_inv_at_cong:
  "timers st' = timers st \<Longrightarrow> listeners st' = listeners st \<Longrightarrow> closing st' i = closing st i
   \<Longrightarrow> close_inv_at st' i = close_inv_at st i"
  by (simp add: close_inv_at_def)

text \<open>openItem\<close>

lemma openItem_closing: "closing (openItem d k b st) j = closing st j"
  by (cases "j = k") (auto simp: openItem_def closing_def Let_def set_maxHeight_def split: option.splits)

lemma openItem_listeners:
  "listeners (openItem d k b st) = listeners st \<or>
   (\<exists>c. listeners (openItem d k b st) = listeners st @ [(k, Open_onEnd c)])"
  by (simp add: openItem_def Let_def split: option.splits)

lemma openItem_inv_at: "close_inv_at st i \<Longrightarrow> close_inv_at (openItem d k b st) i"
  using openItem_listeners[of d k b st]
  by (fastforce simp: close_inv_at_def openItem_timers openItem_closing)

text \<open>cleanup\<close>

lemma cleanup_timers: "timers (cleanup k cid s st) = timers st"
  by (simp add: cleanup_def Let_def)
lemma cleanup_listeners: "listeners (cleanup k cid s st) = listeners st"
  by (simp add: cleanup_def Let_def)
lemma cleanup_closing_other: "j \<noteq> k \<Longrightarrow> closing (cleanup k cid s st) j = closing st j"
  by (simp add: closing_def cleanup_other)

lemma quiet_inv_at: "quiet st i \<Longrightarrow> close_inv_at st i"
  by (force simp: quiet_def close_inv_at_def filter_empty_conv)

lemma quiet_cong: "timers st' = timers st \<Longrightarrow> listeners st' = listeners st \<Longrightarrow> quiet st' i = quiet st i"
  by (simp add: quiet_def)

lemma inv_not_closing_quiet: "close_inv_at st i \<Longrightarrow> \<not> closing st i \<Longrightarrow> quiet st i"
proof -
  assume a: "close_inv_at st i" "\<not> closing st i"
  have "timer_item t \<noteq> Some i" if "t \<in> set (timers st)" for t
    using a that by (cases t) (auto simp: close_inv_at_def)
  moreover have "\<not> (fst jl = i \<and> is_close_handler (snd jl))" if "jl \<in> set (listeners st)" for jl
    using a that by (cases jl, cases "snd jl") (auto simp: close_inv_at_def)
  ultimately show ?thesis by (auto simp: quiet_def filter_empty_conv)
qed

lemma cleanup_inv_at:
  "(i \<noteq> k \<longrightarrow> close_inv_at st i) \<Longrightarrow> quiet st k \<Longrightarrow> close_inv_at (cleanup k cid s st) i"
proof (cases "i = k")
  case True
  assume "quiet st k"
  then have "quiet (cleanup k cid s st) k"
    by (simp add: quiet_def cleanup_timers cleanup_listeners)
  with True show ?thesis by (simp add: quiet_inv_at)
next
  case False
  assume "i \<noteq> k \<longrightarrow> close_inv_at st i"
  with False show ?thesis
    by (simp add: close_inv_at_def cleanup_timers cleanup_listeners cleanup_closing_other)
qed


text \<open>closeItem\<close>

lemma closeItem_inv_at:
  assumes "close_inv_at st i"
  shows "close_inv_at (closeItem d k st) i"
proof (cases "has_parts st k \<and> \<not> closing st k")
  case False
  then have "closeItem d k st = st"
    by (auto simp: closeItem_def has_parts_def closing_def Let_def split: option.splits)
  with assms show ?thesis by simp
next
  case True
  then obtain tg ct where p: "toggleButton (item_of st k) = Some tg" "content (item_of st k) = Some ct"
    "isClosing ct \<noteq> Some ''true''"
    by (auto simp: has_parts_def closing_def)
  define s where "s = getSettings d (reduced st) (attrs (item_of st k))"
  show ?thesis
  proof (cases "js_gt0 (duration s)")
    case pos: True
    have t: "timers (closeItem d k st) = timers st @ [Fallback k (next_closure st) s (js_fallback_delay (duration s))]"
      and l: "listeners (closeItem d k st) = listeners st @
               [(k, Close_debugHandler (next_closure st)), (k, Close_transitionEndHandler (next_closure st) s)]"
      and c: "closing (closeItem d k st) j = (if j = k then True else closing st j)" for j
      using p pos by (simp_all add: closeItem_def Let_def s_def closing_def set_maxHeight_important_def)
    show ?thesis
    proof (cases "i = k")
      case False
      with assms show ?thesis
        unfolding close_inv_at_def t l c by fastforce
    next
      case ik: True
      from assms True ik have q: "quiet st k" by (simp add: inv_not_closing_quiet)
      then have n1: "Fallback k cid' s' d' \<notin> set (timers st)" for cid' s' d'
        by (auto simp: quiet_def filter_empty_conv)
      from q have n2: "(k, Close_transitionEndHandler cid' s') \<notin> set (listeners st)" for cid' s'
        by (auto simp: quiet_def filter_empty_conv)
      from q show ?thesis
        unfolding close_inv_at_def t l c ik using n1 n2
        by (auto simp: quiet_def)
    qed
  next
    case neg: False
    define st1 where "st1 = upd_content k (set_maxHeight (MH_px 0))
        (st\<lparr>item_of := (item_of st)(k := (item_of st k)\<lparr>aaDuration := Some (duration s),
                     aaEasing := custom_property (easing s),
                     content := Some (set_maxHeight_important (MH_px (scrollHeight ct))
                       (ct\<lparr>isClosing := Some ''true'', noFadeClass := \<not> contentFade s,
                           transition := TR_none, overflow := ''hidden''\<rparr>))\<rparr>),
             hasCompleted := (hasCompleted st)(next_closure st := False),
             next_closure := Suc (next_closure st)\<rparr>)"
    have e: "closeItem d k st = cleanup k (next_closure st) s st1"
      using p neg by (simp add: closeItem_def Let_def s_def st1_def)
    have tl: "timers st1 = timers st" "listeners st1 = listeners st"
      by (simp_all add: st1_def)
    have co: "closing st1 j = closing st j" if "j \<noteq> k" for j
      using that by (simp add: st1_def closing_def)
    have "quiet st k" if "i = k"
      using assms True that by (simp add: inv_not_closing_quiet)
    then have q: "i = k \<Longrightarrow> quiet st1 k" by (simp add: quiet_def tl)
    have inv: "i \<noteq> k \<longrightarrow> close_inv_at st1 i"
      using assms by (auto simp: close_inv_at_def tl co)
    show ?thesis
    proof (cases "i = k")
      case True
      have "quiet (cleanup k (next_closure st) s st1) k"
        using q True by (simp add: quiet_def cleanup_timers cleanup_listeners)
      with True e show ?thesis by (simp add: quiet_inv_at)
    next
      case False
      with inv show ?thesis unfolding e
        by (simp add: close_inv_at_def cleanup_timers cleanup_listeners cleanup_closing_other)
    qed
  qed
qed

text \<open>frame callbacks\<close>

lemma run_frame_closing: "closing (run_frame f st) j = closing st j"
  by (cases f; cases "j = frame_item f")
     (auto simp: closing_def Let_def set_maxHeight_def set_maxHeight_important_def
        fadeInChildren_def fadeOutChildren_def split: option.splits)

lemma run_frame_listeners: "listeners (run_frame f st) = listeners st"
  by (cases f) (simp_all add: Let_def)

lemma run_frame_timers:
  "timers (run_frame f st) = timers st \<or> timers (run_frame f st) = timers st @ [Log_timer 10, Log_timer 100]"
  by (cases f) (simp_all add: Let_def)

lemma run_frame_inv_at: "close_inv_at st i \<Longrightarrow> close_inv_at (run_frame f st) i"
  using run_frame_timers[of f st]
  by (fastforce simp: close_inv_at_def run_frame_listeners run_frame_closing)

lemma fold_inv:
  "(\<And>x st. P st \<Longrightarrow> P (f x st)) \<Longrightarrow> P st \<Longrightarrow> P (fold f xs st)"
  by (induction xs arbitrary: st) simp_all

lemma animation_frame_inv: "close_inv st \<Longrightarrow> close_inv (animation_frame st)"
proof -
  assume a: "close_inv st"
  have "close_inv (st\<lparr>frames := []\<rparr>)"
    using a by (simp add: close_inv_def close_inv_at_def closing_def)
  then show ?thesis
    unfolding animation_frame_def
    by (rule fold_inv[rotated]) (simp add: close_inv_def run_frame_inv_at)
qed


text \<open>timers\<close>

lemma fire_timer_inv:
  assumes inv: "close_inv st"
  shows "close_inv (fire_timer t st)"
proof (cases "t \<in> set (timers st)")
  case False
  with inv show ?thesis by (simp add: fire_timer_def)
next
  case mem: True
  show ?thesis
  proof (cases t)
    case (Log_timer d)
    have "close_inv_at (st\<lparr>timers := remove1 t (timers st)\<rparr>) i" for i
    proof -
      have f: "filter (\<lambda>t. timer_item t = Some i) (remove1 t (timers st))
             = filter (\<lambda>t. timer_item t = Some i) (timers st)"
        using Log_timer by (simp add: filter_remove1_other)
      have m: "Fallback i cid s d' \<in> set (remove1 t (timers st)) \<longleftrightarrow> Fallback i cid s d' \<in> set (timers st)"
        for cid s d'
        using Log_timer by (simp add: in_set_remove1)
      from inv have "close_inv_at st i" by (simp add: close_inv_def)
      then show ?thesis
        by (simp add: close_inv_at_def f m closing_def)
    qed
    with mem Log_timer show ?thesis by (simp add: fire_timer_def close_inv_def)
  next
    case (Fallback k cid s d)
    define st1 where "st1 = st\<lparr>timers := remove1 t (timers st),
        listeners := removeAll (k, Close_transitionEndHandler cid s) (listeners st)\<rparr>"
    have e: "fire_timer t st = cleanup k cid s st1"
      using mem Fallback by (simp add: fire_timer_def st1_def)
    have invk: "close_inv_at st k" using inv by (simp add: close_inv_def)
    have F: "filter (\<lambda>t. timer_item t = Some k) (timers st) = [t]"
      using invk mem Fallback by (intro at_most_one_is) (simp_all add: close_inv_at_def)
    have hmem: "(k, Close_transitionEndHandler cid s) \<in> set (listeners st)"
      using invk mem Fallback by (auto simp: close_inv_at_def)
    have H: "filter (\<lambda>jl. fst jl = k \<and> is_close_handler (snd jl)) (listeners st)
             = [(k, Close_transitionEndHandler cid s)]"
      using invk hmem by (intro at_most_one_is) (simp_all add: close_inv_at_def)
    have q: "quiet st1 k"
      by (simp add: quiet_def st1_def filter_remove1 filter_removeAll F H)
    have other: "close_inv_at st1 i" if "i \<noteq> k" for i
    proof -
      have f: "filter (\<lambda>t. timer_item t = Some i) (timers st1)
             = filter (\<lambda>t. timer_item t = Some i) (timers st)"
        using Fallback that by (simp add: st1_def filter_remove1_other)
      have h: "filter (\<lambda>jl. fst jl = i \<and> is_close_handler (snd jl)) (listeners st1)
             = filter (\<lambda>jl. fst jl = i \<and> is_close_handler (snd jl)) (listeners st)"
        using that by (simp add: st1_def filter_removeAll_other)
      have m: "Fallback i cid' s' d' \<in> set (timers st1) \<longleftrightarrow> Fallback i cid' s' d' \<in> set (timers st)"
        for cid' s' d'
        using Fallback that by (simp add: st1_def in_set_remove1)
      have m2: "(i, Close_transitionEndHandler cid' s') \<in> set (listeners st1)
            \<longleftrightarrow> (i, Close_transitionEndHandler cid' s') \<in> set (listeners st)" for cid' s'
        using that by (auto simp: st1_def)
      have c: "closing st1 i = closing st i" by (simp add: st1_def closing_def)
      from inv have "close_inv_at st i" by (simp add: close_inv_def)
      then show ?thesis
        by (simp add: close_inv_at_def f h m m2 c)
    qed
    show ?thesis
      unfolding e close_inv_def using q other
      by (auto intro: cleanup_inv_at)
  qed
qed

text \<open>listeners\<close>

lemma run_listener_inv:
  assumes inv: "close_inv st" and mem: "(k, l) \<in> set (listeners st)"
  shows "close_inv (run_listener k tgt prop l st)"
proof (cases l)
  case (Open_onEnd cid)
  show ?thesis
  proof (cases "prop = ''max-height''")
    case False
    with inv Open_onEnd show ?thesis by simp
  next
    case True
    have "close_inv_at (run_listener k tgt prop l st) i" for i
    proof -
      let ?st' = "run_listener k tgt prop l st"
      have t: "timers ?st' = timers st" using Open_onEnd True by (simp add: Let_def)
      have h: "filter (\<lambda>jl. fst jl = i \<and> is_close_handler (snd jl)) (listeners ?st')
             = filter (\<lambda>jl. fst jl = i \<and> is_close_handler (snd jl)) (listeners st)"
        using Open_onEnd True by (simp add: Let_def filter_removeAll_other)
      have m2: "(i, Close_transitionEndHandler cid' s') \<in> set (listeners ?st')
            \<longleftrightarrow> (i, Close_transitionEndHandler cid' s') \<in> set (listeners st)" for cid' s'
        using Open_onEnd True by (auto simp: Let_def)
      have c: "closing ?st' i = closing st i"
        using Open_onEnd True
        by (cases "i = k") (auto simp: Let_def closing_def set_maxHeight_def split: option.splits)
      from inv have "close_inv_at st i" by (simp add: close_inv_def)
      then show ?thesis
        by (simp add: close_inv_at_def t h m2 c)
    qed
    then show ?thesis by (simp add: close_inv_def)
  qed
next
  case (Close_debugHandler cid)
  with inv show ?thesis by simp
next
  case (Close_transitionEndHandler cid s)
  show ?thesis
  proof (cases "tgt \<noteq> Target_content \<or> prop \<noteq> ''max-height''")
    case True
    with inv Close_transitionEndHandler show ?thesis by auto
  next
    case False
    define st1 where "st1 = st\<lparr>listeners := removeAll (k, Close_debugHandler cid)
                                (removeAll (k, Close_transitionEndHandler cid s) (listeners st)),
                 timers := filter (\<lambda>t. \<not> is_fallback_of k cid t) (timers st)\<rparr>"
    have e: "run_listener k tgt prop l st = cleanup k cid s st1"
      using False Close_transitionEndHandler by (simp add: st1_def)
    have invk: "close_inv_at st k" using inv by (simp add: close_inv_def)
    from invk mem Close_transitionEndHandler obtain d where
      tmem: "Fallback k cid s d \<in> set (timers st)"
      unfolding close_inv_at_def by blast
    have F: "filter (\<lambda>t. timer_item t = Some k) (timers st) = [Fallback k cid s d]"
      using invk tmem by (intro at_most_one_is) (simp_all add: close_inv_at_def)
    have H: "filter (\<lambda>jl. fst jl = k \<and> is_close_handler (snd jl)) (listeners st)
             = [(k, Close_transitionEndHandler cid s)]"
      using invk mem Close_transitionEndHandler
      by (intro at_most_one_is) (simp_all add: close_inv_at_def)
    have "filter (\<lambda>t. timer_item t = Some k) (timers st1)
          = filter (\<lambda>t. \<not> is_fallback_of k cid t) (filter (\<lambda>t. timer_item t = Some k) (timers st))"
      by (simp add: st1_def conj_commute)
    then have F1: "filter (\<lambda>t. timer_item t = Some k) (timers st1) = []"
      by (simp add: F is_fallback_of_def)
    have H1: "filter (\<lambda>jl. fst jl = k \<and> is_close_handler (snd jl)) (listeners st1) = []"
      by (simp add: st1_def filter_removeAll H)
    have q: "quiet st1 k" by (simp add: quiet_def F1 H1)
    have other: "close_inv_at st1 i" if "i \<noteq> k" for i
    proof -
      have f: "filter (\<lambda>t. timer_item t = Some i) (timers st1)
             = filter (\<lambda>t. timer_item t = Some i) (timers st)"
      proof -
        have "(timer_item t = Some i \<and> \<not> is_fallback_of k cid t) = (timer_item t = Some i)" for t
          using that by (cases t) (auto simp: is_fallback_of_def)
        then show ?thesis by (simp add: st1_def conj_commute)
      qed
      have h: "filter (\<lambda>jl. fst jl = i \<and> is_close_handler (snd jl)) (listeners st1)
             = filter (\<lambda>jl. fst jl = i \<and> is_close_handler (snd jl)) (listeners st)"
        using that by (simp add: st1_def filter_removeAll_other)
      have m: "Fallback i cid' s' d' \<in> set (timers st1) \<longleftrightarrow> Fallback i cid' s' d' \<in> set (timers st)"
        for cid' s' d'
        using that by (auto simp: st1_def is_fallback_of_def)
      have m2: "(i, Close_transitionEndHandler cid' s') \<in> set (listeners st1)
            \<longleftrightarrow> (i, Close_transitionEndHandler cid' s') \<in> set (listeners st)" for cid' s'
        using that by (auto simp: st1_def)
      have c: "closing st1 i = closing st i" by (simp add: st1_def closing_def)
      from inv have "close_inv_at st i" by (simp add: close_inv_def)
      then show ?thesis
        by (simp add: close_inv_at_def f h m m2 c)
    qed
    show ?thesis
      unfolding e close_inv_def using q other
      by (auto intro: cleanup_inv_at)
  qed
qed

lemma transitionend_inv: "close_inv st \<Longrightarrow> close_inv (transitionend i tgt prop st)"
  unfolding transitionend_def
  by (rule fold_inv[rotated]) (auto simp: run_listener_inv)


text \<open>the click handler\<close>

lemma openItem_inv: "close_inv st \<Longrightarrow> close_inv (openItem d k b st)"
  by (simp add: close_inv_def openItem_inv_at)

lemma closeItem_inv: "close_inv st \<Longrightarrow> close_inv (closeItem d k st)"
  by (simp add: close_inv_def closeItem_inv_at)

lemma sync_one_inv: "close_inv st \<Longrightarrow> close_inv (sync_one this t b k st)"
  by (simp add: sync_one_def openItemGlobal_def closeItemGlobal_def openItem_inv closeItem_inv
      split: option.splits)

lemma autoClose_one_inv: "close_inv st \<Longrightarrow> close_inv (autoClose_one this i g k st)"
  by (simp add: autoClose_one_def Let_def closeItem_inv)

lemma toggle_by_inv:
  assumes "close_inv st" and out: "outcome_state (toggle_by q this i st) = Some st'"
  shows "close_inv st'"
proof -
  define st1 where "st1 = (if isOpen (item_of st i) then closeItem (defaults this) i st
                 else openItem (defaults this) i False st)"
  have i1: "close_inv st1"
    using assms by (simp add: st1_def openItem_inv closeItem_inv)
  have sy: "close_inv st2" if "syncLinkedGroup q this g i b st1 = Value st2" for g b st2
  proof -
    have "close_inv (fold (sync_one this i b) ks st1)" for ks
      using i1 by (rule fold_inv[rotated]) (rule sync_one_inv)
    with that show ?thesis
      by (auto simp: syncLinkedGroup_def split: completion.splits)
  qed
  have ac: "close_inv (fold (autoClose_one this i g) ks st2)" if "close_inv st2" for g ks st2
    using that by (rule fold_inv[rotated]) (rule autoClose_one_inv)
  show ?thesis
    using out i1 sy ac
    unfolding toggle_by_def Let_def st1_def[symmetric] outcome_state_def
    by (auto split: option.splits completion.splits if_splits)
qed

lemma toggle_inv:
  "close_inv st \<Longrightarrow> outcome_state (toggle this i st) = Some st' \<Longrightarrow> close_inv st'"
  unfolding toggle_def by (rule toggle_by_inv)

text \<open>resize, layout, hydration\<close>

lemma recalc_one_inv: "close_inv st \<Longrightarrow> close_inv (recalc_one k st)"
proof -
  assume a: "close_inv st"
  have c: "closing (recalc_one k st) j = closing st j" for j
    by (cases "j = k")
       (auto simp: recalc_one_def Let_def closing_def set_maxHeight_def split: option.splits)
  show ?thesis
    using a recalc_one_rest[of k st] by (simp add: close_inv_def close_inv_at_def c)
qed

lemma recalcOpenHeights_inv:
  assumes "close_inv st"
  shows "close_inv (recalcOpenHeights this st)"
  unfolding recalcOpenHeights_def using assms
  by (rule fold_inv[rotated]) (rule recalc_one_inv)

lemma set_layout_inv: "close_inv st \<Longrightarrow> close_inv (set_layout k h sh st)"
proof -
  assume a: "close_inv st"
  have c: "closing (set_layout k h sh st) j = closing st j" for j
    by (cases "j = k") (auto simp: set_layout_def closing_def split: option.splits)
  have t: "timers (set_layout k h sh st) = timers st" "listeners (set_layout k h sh st) = listeners st"
    by (simp_all add: set_layout_def)
  show ?thesis
    using a by (simp add: close_inv_def close_inv_at_def c t)
qed

lemma initItem_inv: "close_inv st \<Longrightarrow> close_inv (initItem d r k st)"
proof -
  assume a: "close_inv st"
  have upd: "close_inv (st\<lparr>item_of := (item_of st)(k := it)\<rparr>)"
    if "map_option isClosing (content it) = map_option isClosing (content (item_of st k))" for it
  proof -
    have "closing (st\<lparr>item_of := (item_of st)(k := it)\<rparr>) j = closing st j" for j
      using that by (cases "content it"; cases "content (item_of st k)") (auto simp: closing_def)
    with a show ?thesis by (simp add: close_inv_def close_inv_at_def)
  qed
  show ?thesis
    unfolding initItem_def Let_def using a
    by (auto split: option.splits intro!: openItem_inv upd simp: upd_item_def set_maxHeight_def)
qed

lemma hydrate_inv: "close_inv st \<Longrightarrow> close_inv (hydrate c container its random st)"
proof -
  assume a: "close_inv st"
  have "close_inv (fold (\<lambda>i. initItem d (random i) i) xs st)" for d xs
    using a by (rule fold_inv[rotated]) (rule initItem_inv)
  then show ?thesis
    by (simp add: hydrate_def Let_def close_inv_def close_inv_at_def closing_def)
qed

lemma reachable_close_inv: "reachable st \<Longrightarrow> close_inv st"
proof (induction rule: reachable.induct)
  case (markup d its rm)
  show ?case by (simp add: close_inv_def close_inv_at_def markup_page_def)
next
  case (motion st b)
  then show ?case by (simp add: close_inv_def close_inv_at_def closing_def)
next
  case (click st c this i st')
  then show ?case using toggle_inv by blast
next
  case (click_undecided st c this i found st')
  then show ?case using toggle_by_inv by blast
qed (simp_all add: hydrate_inv animation_frame_inv transitionend_inv fire_timer_inv
       recalcOpenHeights_inv set_layout_inv)

lemma toggle_ungrouped:
  "group_of st i = None \<Longrightarrow> \<not> autoClose this \<Longrightarrow>
   toggle this i st =
     Returned (if isOpen (item_of st i) then closeItem (defaults this) i st
               else openItem (defaults this) i False st)"
  by (simp add: toggle_def toggle_by_def Let_def group_of_def openItem_attrs closeItem_attrs)

lemma clicked_eval:
  "instances (markup_page [0] (\<lambda>_. solo_item) False) 0 = None \<and>
   instances (solo_page False) 0 = Some solo_accordion \<and>
   items solo_accordion = [0] \<and> defaults solo_accordion = solo_defaults \<and>
   \<not> autoClose solo_accordion \<and>
   has_parts (solo_page False) 0 \<and> group_of (solo_page False) 0 = None \<and>
   \<not> isOpen (item_of (solo_page False) 0) \<and>
   instances clicked_once 0 = Some solo_accordion \<and> has_parts clicked_once 0 \<and>
   group_of clicked_once 0 = None \<and> isOpen (item_of clicked_once 0) \<and>
   opens_in_flight clicked_once 0 = Suc 0 \<and> closes_in_flight clicked_once 0 = 0 \<and>
   opens_in_flight clicked_twice 0 = Suc 0 \<and> closes_in_flight clicked_twice 0 = Suc 0 \<and>
   closing clicked_twice 0"
  by (simp add: clicked_once_def clicked_twice_def solo_defs model_defs
      opens_in_flight_def closes_in_flight_def)

lemma clicks_eval:
  "toggle solo_accordion 0 (solo_page False) = Returned clicked_once \<and>
   toggle solo_accordion 0 clicked_once = Returned clicked_twice"
  using clicked_eval by (simp add: toggle_ungrouped clicked_once_def clicked_twice_def)

lemma clicked_twice_reachable: "reachable clicked_twice"
proof -
  have r0: "reachable (solo_page False)"
    unfolding solo_page_def using clicked_eval
    by (intro reachable.hydrated reachable.markup) simp
  have r1: "reachable clicked_once"
    using reachable.click[OF r0, of 0 solo_accordion 0 clicked_once] clicked_eval clicks_eval
    by (simp add: outcome_state_def)
  show ?thesis
    using reachable.click[OF r1, of 0 solo_accordion 0 clicked_twice] clicked_eval clicks_eval
    by (simp add: outcome_state_def)
qed

text \<open>
  C4, as stated, fails in its conclusion: after a click on the toggle of a closed item
  and a second click before anything else happens, the open is still in flight (its
  listener waits for the end of the transition) and the close is in flight as well.
\<close>

theorem close_starts_while_open_in_flight:
  "toggle solo_accordion 0 (solo_page False) = Returned clicked_once \<and>
   toggle solo_accordion 0 clicked_once = Returned clicked_twice \<and>
   reachable clicked_twice \<and>
   opens_in_flight clicked_twice 0 = 1 \<and> closes_in_flight clicked_twice 0 = 1 \<and>
   animations_in_flight clicked_twice 0 = 2 \<and> \<not> animations_in_flight clicked_twice 0 \<le> 1"
  using clicked_eval clicks_eval clicked_twice_reachable by (simp add: animations_in_flight_def)

text \<open>
  C4, amended: a call of \<open>_closeItem\<close> for an item whose close is in flight changes
  nothing, and in every state the page can reach at most one close is in flight per
  item.
\<close>

theorem second_close_is_noop_and_one_close_in_flight:
  "(closing st i \<longrightarrow> closeItem dflt i st = st) \<and>
   (reachable st \<longrightarrow> closes_in_flight st i \<le> 1)"
  using reachable_close_inv[of st]
  by (auto simp: closeItem_noop close_inv_def close_inv_at_def closes_in_flight_def)

theorem second_close_is_noop_and_one_close_in_flight_witness:
  "closing clicked_twice 0 \<and> closeItem solo_defaults 0 clicked_twice = clicked_twice \<and>
   reachable clicked_twice \<and> closes_in_flight clicked_twice 0 \<le> 1"
  using second_close_is_noop_and_one_close_in_flight [of clicked_twice 0 solo_defaults]
    clicked_eval clicked_twice_reachable
  by simp

section \<open>Open followed by close\<close>

lemma forEach_style_notin: "e \<notin> set els \<Longrightarrow> forEach_style els f m e = m e"
  unfolding forEach_style_def by (induction els arbitrary: m) auto

lemma forEach_style_indexed_notin_aux:
  "e \<notin> snd ` set xs \<Longrightarrow> fold (\<lambda>(i, e) m'. m'(e := f i (m' e))) xs m e = m e"
  by (induction xs arbitrary: m) (auto simp: case_prod_beta)

lemma forEach_style_indexed_notin: "e \<notin> set els \<Longrightarrow> forEach_style_indexed els f m e = m e"
  unfolding forEach_style_indexed_def
  by (rule forEach_style_indexed_notin_aux) (auto simp: enumerate_eq_zip dest: set_zip_rightD)

lemma forEach_style_snoc:
  "forEach_style (els @ [a]) f m = (forEach_style els f m)(a := f (forEach_style els f m a))"
  by (simp add: forEach_style_def)

lemma forEach_style_const:
  "(\<And>c. f c = v) \<Longrightarrow> e \<in> set els \<Longrightarrow> forEach_style els f m e = v"
proof (induction els rule: rev_induct)
  case Nil
  then show ?case by simp
next
  case (snoc a els)
  then show ?case
    by (cases "e = a") (simp_all add: forEach_style_snoc)
qed

lemma clear_is_unstyled:
  "c\<lparr>c_transition := TR_unset, c_opacity := [], c_transform := TF_unset\<rparr> = unstyled"
  by (cases c) (simp add: unstyled_def)

lemma forEach_clear [simp]:
  "forEach_style els (\<lambda>c. c\<lparr>c_transition := TR_unset, c_opacity := [], c_transform := TF_unset\<rparr>) m
     = cleared els m"
  by (rule ext) (simp add: cleared_def forEach_style_const clear_is_unstyled forEach_style_notin)

lemma cleared_forEach [simp]:
  "cleared els (forEach_style els f m) = cleared els m"
  "cleared els (forEach_style_indexed els g m) = cleared els m"
  by (rule ext, simp add: cleared_def forEach_style_notin forEach_style_indexed_notin)+

text \<open>frames of other items\<close>

lemma run_frame_other: "frame_item f \<noteq> i \<Longrightarrow> item_of (run_frame f st) i = item_of st i"
  by (cases f) (simp_all add: Let_def)

lemma run_frame_rest:
  "listeners (run_frame f st) = listeners st" "reduced (run_frame f st) = reduced st"
  "hasCompleted (run_frame f st) = hasCompleted st" "next_closure (run_frame f st) = next_closure st"
  "frames (run_frame f st) = frames st"
  "filter (\<lambda>t. timer_item t = Some i) (timers (run_frame f st))
     = filter (\<lambda>t. timer_item t = Some i) (timers st)"
  by (cases f; simp add: Let_def)+

lemma fold_run_frame_other:
  "list_all (\<lambda>f. frame_item f \<noteq> i) fs \<Longrightarrow> item_of (fold run_frame fs st) i = item_of st i"
  by (induction fs arbitrary: st) (simp_all add: run_frame_other)

lemma fold_run_frame_rest:
  "listeners (fold run_frame fs st) = listeners st" "reduced (fold run_frame fs st) = reduced st"
  "hasCompleted (fold run_frame fs st) = hasCompleted st"
  "next_closure (fold run_frame fs st) = next_closure st"
  "frames (fold run_frame fs st) = frames st"
  "filter (\<lambda>t. timer_item t = Some i) (timers (fold run_frame fs st))
     = filter (\<lambda>t. timer_item t = Some i) (timers st)"
  by (induction fs arbitrary: st; simp add: run_frame_rest)+


lemma dispatch_skips_debug:
  "fold (\<lambda>l st'. if (i, l) \<in> set (listeners st') then run_listener i tgt prop l st' else st') ls st
   = fold (\<lambda>l st'. if (i, l) \<in> set (listeners st') then run_listener i tgt prop l st' else st')
       (filter (\<lambda>l. \<not> is_debug_handler l) ls) st"
proof (induction ls arbitrary: st)
  case Nil
  then show ?case by simp
next
  case (Cons l ls)
  then show ?case by (cases l) simp_all
qed

lemma transitionend_skips_debug:
  "transitionend i tgt prop st =
     fold (\<lambda>l st'. if (i, l) \<in> set (listeners st') then run_listener i tgt prop l st' else st')
          (map snd (filter (\<lambda>jl. fst jl = i \<and> \<not> is_debug_handler (snd jl)) (listeners st))) st"
  unfolding transitionend_def
  by (subst dispatch_skips_debug) (simp add: filter_map comp_def conj_commute)

lemma at_rest_facts:
  assumes "at_rest st i"
  shows "list_all (\<lambda>f. frame_item f \<noteq> i) (frames st)"
    and "filter (\<lambda>jl. fst jl = i \<and> \<not> is_debug_handler (snd jl)) (listeners st) = []"
    and "filter (\<lambda>t. timer_item t = Some i) (timers st) = []"
    and "removeAll (i, Open_onEnd c) (listeners st) = listeners st"
    and "(i, Open_onEnd c) \<notin> set (listeners st)"
    and "(i, Close_transitionEndHandler c s) \<notin> set (listeners st)"
proof -
  show "list_all (\<lambda>f. frame_item f \<noteq> i) (frames st)"
    using assms by (simp add: at_rest_def)
  show "filter (\<lambda>jl. fst jl = i \<and> \<not> is_debug_handler (snd jl)) (listeners st) = []"
    using assms by (auto simp: at_rest_def list_all_iff filter_empty_conv)
  show "filter (\<lambda>t. timer_item t = Some i) (timers st) = []"
    using assms by (auto simp: at_rest_def list_all_iff filter_empty_conv)
  show m: "(i, Open_onEnd c) \<notin> set (listeners st)"
    using assms by (force simp: at_rest_def list_all_iff)
  then show "removeAll (i, Open_onEnd c) (listeners st) = listeners st"
    by (rule removeAll_id)
  show "(i, Close_transitionEndHandler c s) \<notin> set (listeners st)"
    using assms by (force simp: at_rest_def list_all_iff)
qed

lemma round_trip:
  assumes cl: "closed_item st i"
  shows "item_of (open_then_close dflt i by_timeout st) i
         = round_trip_item (resolved dflt st i) (item_of st i)"
proof -
  from cl obtain tg ct where p: "toggleButton (item_of st i) = Some tg"
      "content (item_of st i) = Some ct" "hidden ct" "isClosing ct \<noteq> Some ''true''"
      "\<not> isOpen (item_of st i)" and rest: "at_rest st i"
    by (auto simp: closed_item_def has_parts_def closing_def split: option.splits)
  note r = at_rest_facts[OF rest]
  define s where "s = getSettings dflt (reduced st) (attrs (item_of st i))"
  note cycle = open_then_close_def complete_open_def complete_close_def resolved_def
  note steps = openItem_def animation_frame_def fold_run_frame_other fold_run_frame_rest
    closeItem_def cleanup_def set_maxHeight_def set_maxHeight_important_def fadeInChildren_def
    fadeOutChildren_def round_trip_item_def
  show ?thesis
  proof (cases "js_gt0 (duration s)")
    case False
    then show ?thesis
      using p r(1)
      apply (simp add: cycle s_def[symmetric] Let_def)
      apply (simp add: steps Let_def s_def[symmetric])
      done
  next
    case True
    show ?thesis
    proof (cases by_timeout)
      case False
      with True show ?thesis
        using p r
        apply (simp add: cycle s_def[symmetric] Let_def)
        apply (simp add: steps Let_def s_def[symmetric] transitionend_skips_debug
            is_fallback_of_def)
        done
    next
      case bt: True
      with True show ?thesis
        using p r
        apply (simp add: cycle s_def[symmetric] Let_def)
        apply (simp add: steps Let_def s_def[symmetric] transitionend_skips_debug
            fire_fallbacks_def fire_timer_def)
        done
    qed
  qed
qed

lemma solo_closed_eval:
  "closed_item (solo_page False) 0 \<and> closed_item (solo_page True) 0 \<and>
   panel_maxHeight (solo_page False) 0 = Some (MH_px 0) \<and>
   map_option overflow (content (item_of (solo_page False) 0)) = Some ''hidden'' \<and>
   contentFade (resolved solo_defaults (solo_page False) 0) \<and>
   duration (resolved solo_defaults (solo_page False) 0) = Num (4 / 10) \<and>
   duration (resolved solo_defaults (solo_page True) 0) = Num 0 \<and>
   map_option (\<lambda>ct. getAnimatableElements (kids ct)) (content (item_of (solo_page False) 0))
     = Some [7]"
  by (simp add: solo_defs model_defs closed_item_def at_rest_def resolved_def)

text \<open>
  C3, as stated, fails: the item does not return to exactly its state before the open.
  On the example page the hydrated, closed item has the inline \<open>max-height\<close> 0 and
  \<open>overflow: hidden\<close> on its panel; after open and close the panel has neither.
\<close>

theorem round_trip_not_exact:
  "closed_item (solo_page False) 0 \<and>
   item_of (open_then_close solo_defaults 0 False (solo_page False)) 0
     \<noteq> item_of (solo_page False) 0 \<and>
   panel_maxHeight (solo_page False) 0 = Some (MH_px 0) \<and>
   panel_maxHeight (open_then_close solo_defaults 0 False (solo_page False)) 0 = Some MH_unset"
proof -
  note e = solo_closed_eval
  then have c: "closed_item (solo_page False) 0" by simp
  have m: "panel_maxHeight (open_then_close solo_defaults 0 False (solo_page False)) 0
           = Some MH_unset"
    using c e
    by (cases "content (item_of (solo_page False) 0)")
       (simp_all add: round_trip[OF c] panel_maxHeight_def round_trip_item_def closed_item_def)
  with e have "panel_maxHeight (open_then_close solo_defaults 0 False (solo_page False)) 0
           \<noteq> panel_maxHeight (solo_page False) 0" by simp
  then have "item_of (open_then_close solo_defaults 0 False (solo_page False)) 0
     \<noteq> item_of (solo_page False) 0"
    by (auto simp: panel_maxHeight_def)
  with c m e show ?thesis by simp
qed

text \<open>
  C3, amended: for an item in the closed state with nothing pending, an open followed
  by a close, each run to completion (the close by the end of its transition or by
  its fallback timer), leaves the item not open, with the hidden flag it had, and with
  no inline \<open>max-height\<close>, opacity, transition or overflow on the panel; with content
  fade the animatable elements have no inline opacity or transform, without it their
  styles are as before. This holds for every duration and both values of content
  fade. The whole item afterwards is \<open>round_trip_item\<close> of the item before.
\<close>

theorem open_then_close_leaves_no_inline_styles:
  assumes "closed_item st i"
  shows "item_of (open_then_close dflt i by_timeout st) i
           = round_trip_item (resolved dflt st i) (item_of st i) \<and>
         \<not> isOpen (item_of (open_then_close dflt i by_timeout st) i) \<and>
         (\<exists>ct ct'. content (item_of st i) = Some ct \<and>
            content (item_of (open_then_close dflt i by_timeout st) i) = Some ct' \<and>
            hidden ct' = hidden ct \<and> maxHeight ct' = MH_unset \<and> opacity ct' = [] \<and>
            transition ct' = TR_unset \<and> overflow ct' = [] \<and>
            (\<forall>e \<in> set (getAnimatableElements (kids ct)).
               if contentFade (resolved dflt st i)
               then c_opacity (kidStyle ct' e) = [] \<and> c_transform (kidStyle ct' e) = TF_unset
               else kidStyle ct' e = kidStyle ct e))"
proof -
  from assms obtain ct where ct: "content (item_of st i) = Some ct"
    and o: "\<not> isOpen (item_of st i)"
    by (auto simp: closed_item_def has_parts_def)
  show ?thesis
    using o by (simp add: round_trip[OF assms] round_trip_item_def ct cleared_def unstyled_def)
qed

theorem open_then_close_leaves_no_inline_styles_witness:
  "closed_item (solo_page False) 0 \<and> closed_item (solo_page True) 0 \<and>
   duration (resolved solo_defaults (solo_page False) 0) = Num (4 / 10) \<and>
   duration (resolved solo_defaults (solo_page True) 0) = Num 0 \<and>
   panel_maxHeight (open_then_close solo_defaults 0 False (solo_page False)) 0 = Some MH_unset \<and>
   panel_maxHeight (open_then_close solo_defaults 0 True (solo_page False)) 0 = Some MH_unset \<and>
   panel_maxHeight (open_then_close solo_defaults 0 False (solo_page True)) 0 = Some MH_unset \<and>
   \<not> isOpen (item_of (open_then_close solo_defaults 0 False (solo_page False)) 0) \<and>
   \<not> isOpen (item_of (open_then_close solo_defaults 0 False (solo_page True)) 0)"
  using solo_closed_eval
    open_then_close_leaves_no_inline_styles [of "solo_page False" 0 solo_defaults False]
    open_then_close_leaves_no_inline_styles [of "solo_page False" 0 solo_defaults True]
    open_then_close_leaves_no_inline_styles [of "solo_page True" 0 solo_defaults False]
  by (auto simp: panel_maxHeight_def)

end
